theory Spec2Isabelle
  imports Complex_Main "HOL-Library.Sublist"
begin

section \<open>JavaScript values\<close>

text \<open>
  The proxy works on the values that \<^verbatim>\<open>JSON.parse\<close> returns and mutates them in place.
  A value is modelled as a tree. An object is the list of its own properties in the order
  \<^verbatim>\<open>Object.entries\<close> lists them; the trees come from \<^verbatim>\<open>JSON.parse\<close>, so no two
  nodes are shared and in-place mutation is modelled by returning the updated tree.
  \<open>JUndefined\<close> is what a read of a missing property gives. \<open>JHost k\<close> stands for the
  member \<open>k\<close> that every object literal inherits from \<^verbatim>\<open>Object.prototype\<close> (a function
  such as \<^verbatim>\<open>toString\<close>): it is not JSON data, it is truthy, and its \<^verbatim>\<open>typeof\<close> is
  not \<^verbatim>\<open>"string"\<close>.

  Strings are Isabelle strings holding the UTF-8 encoding of the JavaScript string.
\<close>

datatype jsvalue =
    JUndefined
  | JNull
  | JBool bool
  | JNum rat
  | JStr string
  | JArr "jsvalue list"
  | JObj "(string \<times> jsvalue) list"
  | JHost string

datatype error = TypeError

text \<open>
  The built-ins the repository calls and does not define are parameters of the model:
  \<^item> \<^verbatim>\<open>JSON.parse\<close>, \<open>None\<close> when it throws;
  \<^item> \<^verbatim>\<open>JSON.stringify\<close>;
  \<^item> the string conversion of a value that is not a string, as
    \<^verbatim>\<open>Array.prototype.join\<close> applies it to an element, \<open>None\<close> when it throws (an
    object whose \<^verbatim>\<open>toString\<close> and \<^verbatim>\<open>valueOf\<close> give no primitive);
  \<^item> the comparison \<^verbatim>\<open>v < n\<close> for a value \<open>v\<close> that is not a number, \<open>None\<close> when
    the conversion of \<open>v\<close> throws;
  \<^item> \<^verbatim>\<open>name.charAt(0).toUpperCase() + name.slice(1)\<close> for a name whose first
    character lies outside ASCII, where the Unicode case mapping decides (it may lengthen
    the string, as it does for the sharp s).
  The theorems are stated for an arbitrary runtime.
\<close>

record runtime =
  JSON_parse :: "string \<Rightarrow> jsvalue option"
  JSON_stringify :: "jsvalue \<Rightarrow> string"
  ToString :: "jsvalue \<Rightarrow> string option"
  coerced_less :: "jsvalue \<Rightarrow> rat \<Rightarrow> bool option"
  toUpperCase_initial :: "string \<Rightarrow> string"


text \<open>JavaScript's \<^verbatim>\<open>ToBoolean\<close>, as used by \<^verbatim>\<open>!x\<close>, \<^verbatim>\<open>x && y\<close> and \<^verbatim>\<open>if (x)\<close>.\<close>

fun truthy :: "jsvalue \<Rightarrow> bool" where
  "truthy JUndefined = False"
| "truthy JNull = False"
| "truthy (JBool b) = b"
| "truthy (JNum x) = (x \<noteq> 0)"
| "truthy (JStr s) = (s \<noteq> [])"
| "truthy (JArr xs) = True"
| "truthy (JObj kvs) = True"
| "truthy (JHost k) = True"

text \<open>\<^verbatim>\<open>x ?? y\<close>.\<close>

definition nullish_or :: "jsvalue \<Rightarrow> jsvalue \<Rightarrow> jsvalue" where
  "nullish_or x y = (if x = JNull \<or> x = JUndefined then y else x)"

text \<open>
  \<^verbatim>\<open>v.k\<close> for a value \<open>v\<close> that is neither \<^verbatim>\<open>null\<close> nor \<^verbatim>\<open>undefined\<close> (on
  those the read throws, which each caller models). The property names the source reads
  (\<^verbatim>\<open>type\<close>, \<^verbatim>\<open>name\<close>, \<^verbatim>\<open>content\<close>, \<^verbatim>\<open>tools\<close>, \<^verbatim>\<open>messages\<close>, \<^verbatim>\<open>system\<close>,
  \<^verbatim>\<open>role\<close>, \<^verbatim>\<open>text\<close>, \<^verbatim>\<open>thinking\<close>, \<^verbatim>\<open>model\<close>, \<^verbatim>\<open>max_tokens\<close>, \<^verbatim>\<open>input\<close>,
  \<^verbatim>\<open>content_block\<close>) are defined on no built-in prototype, so only an object's own
  properties answer.
\<close>

fun get_prop :: "jsvalue \<Rightarrow> string \<Rightarrow> jsvalue" where
  "get_prop (JObj kvs) k = (case map_of kvs k of Some v \<Rightarrow> v | None \<Rightarrow> JUndefined)"
| "get_prop v k = JUndefined"

text \<open>
  \<^verbatim>\<open>o[k] = v\<close> on the property list of an object: an existing property keeps its place, a
  new one goes to the end.
\<close>

fun set_entry :: "string \<Rightarrow> jsvalue \<Rightarrow> (string \<times> jsvalue) list \<Rightarrow> (string \<times> jsvalue) list" where
  "set_entry k v [] = [(k, v)]"
| "set_entry k v (p # ps) = (if fst p = k then (k, v) # ps else p # set_entry k v ps)"

fun set_prop :: "jsvalue \<Rightarrow> string \<Rightarrow> jsvalue \<Rightarrow> jsvalue" where
  "set_prop (JObj kvs) k v = JObj (set_entry k v kvs)"
| "set_prop b k v = b"

text \<open>
  On the ASCII characters \<^verbatim>\<open>toUpperCase\<close> and \<^verbatim>\<open>toLowerCase\<close> map the letters
  and leave the rest. A string holds the UTF-8 encoding, so its first character is ASCII
  exactly if its first byte is below 128.
\<close>

definition is_ascii :: "char \<Rightarrow> bool" where
  "is_ascii c = ((of_char c :: nat) < 128)"

definition ascii_lower :: string where
  "ascii_lower = ''abcdefghijklmnopqrstuvwxyz''"

definition ascii_upper :: string where
  "ascii_upper = ''ABCDEFGHIJKLMNOPQRSTUVWXYZ''"

definition toUpperCase_char :: "char \<Rightarrow> char" where
  "toUpperCase_char c =
     (case map_of (zip ascii_lower ascii_upper) c of Some u \<Rightarrow> u | None \<Rightarrow> c)"

definition toLowerCase_char :: "char \<Rightarrow> char" where
  "toLowerCase_char c =
     (case map_of (zip ascii_upper ascii_lower) c of Some l \<Rightarrow> l | None \<Rightarrow> c)"

text \<open>
  \<^verbatim>\<open>modelId.toLowerCase()\<close> is used only to look for ASCII patterns in the result. It
  is modelled on the ASCII letters; no character outside ASCII has a lower-case form that
  contains a letter of those patterns.
\<close>

definition toLowerCase :: "string \<Rightarrow> string" where
  "toLowerCase s = map toLowerCase_char s"

text \<open>\<^verbatim>\<open>name.charAt(0).toUpperCase() + name.slice(1)\<close>.\<close>

definition capitalise :: "runtime \<Rightarrow> string \<Rightarrow> string" where
  "capitalise rt name =
     (case name of
        [] \<Rightarrow> []
      | c # cs \<Rightarrow> if is_ascii c then toUpperCase_char c # cs else toUpperCase_initial rt name)"

section \<open>Tool names (transform.ts)\<close>

definition NAME_MAP :: "(string \<times> string) list" where
  "NAME_MAP =
     [(''todowrite'', ''TodoWrite''),
      (''webfetch'', ''WebFetch''),
      (''google_search'', ''Google_Search'')]"

text \<open>
  \<^verbatim>\<open>NAME_MAP\<close> is an object literal, so \<^verbatim>\<open>NAME_MAP[name]\<close> answers for its three own
  keys and, through the prototype chain, for every property name of
  \<^verbatim>\<open>Object.prototype\<close>.
\<close>

definition Object_prototype_names :: "string list" where
  "Object_prototype_names =
     [''constructor'', ''__defineGetter__'', ''__defineSetter__'', ''hasOwnProperty'',
      ''__lookupGetter__'', ''__lookupSetter__'', ''isPrototypeOf'',
      ''propertyIsEnumerable'', ''toString'', ''valueOf'', ''__proto__'',
      ''toLocaleString'']"

definition NAME_MAP_at :: "string \<Rightarrow> jsvalue" where
  "NAME_MAP_at name =
     (case map_of NAME_MAP name of
        Some v \<Rightarrow> JStr v
      | None \<Rightarrow> if name \<in> set Object_prototype_names then JHost name else JUndefined)"

text \<open>
  \<^verbatim>\<open>mapName\<close>: the first and the last equation are the guard
  \<^verbatim>\<open>if (!name || typeof name !== "string") return name\<close>, the middle one the lookup
  and, failing that, the capital initial.
\<close>

fun mapName :: "runtime \<Rightarrow> jsvalue \<Rightarrow> jsvalue" where
  "mapName rt (JStr []) = JStr []"
| "mapName rt (JStr (c # cs)) =
     (if truthy (NAME_MAP_at (c # cs)) then NAME_MAP_at (c # cs)
      else JStr (capitalise rt (c # cs)))"
| "mapName rt name = name"


section \<open>Deep removal of the sentinel (transform.ts)\<close>

definition sentinel :: jsvalue where
  "sentinel = JStr ''[undefined]''"

text \<open>
  \<^verbatim>\<open>cleaned[key] = value\<close> on the object literal \<^verbatim>\<open>cleaned\<close>, which has no own
  property \<^verbatim>\<open>__proto__\<close>: for that key the assignment reaches the setter inherited
  from \<^verbatim>\<open>Object.prototype\<close> and adds no property (it replaces the prototype of
  \<^verbatim>\<open>cleaned\<close> when the value is an object, which a property list cannot say: the
  theorems rule the key out by \<open>wf_value\<close> below).
\<close>

definition assign_fresh ::
  "string \<Rightarrow> jsvalue \<Rightarrow> (string \<times> jsvalue) list \<Rightarrow> (string \<times> jsvalue) list" where
  "assign_fresh key value cleaned =
     (if key = ''__proto__'' then cleaned else set_entry key value cleaned)"

text \<open>
  The array case is the source's \<^verbatim>\<open>filter\<close> followed by \<^verbatim>\<open>map\<close>. The object case is
  its loop over \<^verbatim>\<open>Object.entries(obj)\<close>, which skips an entry whose value is the
  sentinel and otherwise assigns \<^verbatim>\<open>cleaned[key]\<close>, starting from the empty object.
\<close>

fun cleanUndefined :: "jsvalue \<Rightarrow> jsvalue" where
  "cleanUndefined (JArr xs) =
     JArr (map cleanUndefined (filter (\<lambda>item. item \<noteq> sentinel) xs))"
| "cleanUndefined (JObj kvs) =
     JObj (fold (\<lambda>entry cleaned.
                   if snd entry = sentinel then cleaned
                   else assign_fresh (fst entry) (cleanUndefined (snd entry)) cleaned)
                kvs [])"
| "cleanUndefined obj = obj"

text \<open>
  The value trees the theorems are about: in every object the keys are pairwise
  different, as in every JavaScript object, and none is \<^verbatim>\<open>__proto__\<close>.
\<close>

fun wf_value :: "jsvalue \<Rightarrow> bool" where
  "wf_value (JArr xs) = list_all wf_value xs"
| "wf_value (JObj kvs) =
     (distinct (map fst kvs) \<and> ''__proto__'' \<notin> set (map fst kvs)
      \<and> list_all (\<lambda>entry. wf_value (snd entry)) kvs)"
| "wf_value v = True"

text \<open>The sentinel occurs in the tree: at the root, or as an element or a property value below.\<close>

fun contains_sentinel :: "jsvalue \<Rightarrow> bool" where
  "contains_sentinel (JArr xs) = list_ex contains_sentinel xs"
| "contains_sentinel (JObj kvs) = list_ex (\<lambda>entry. contains_sentinel (snd entry)) kvs"
| "contains_sentinel v = (v = sentinel)"

text \<open>
  The Field Sanitizer as section 4.1 of the specification words it: sequences drop the
  elements equal to the sentinel and sanitize the rest in order; mappings drop a key whose
  value is the sentinel and keep every other key with its value sanitized; scalars are
  returned unchanged.
\<close>

fun sanitize :: "jsvalue \<Rightarrow> jsvalue" where
  "sanitize (JArr xs) = JArr (map sanitize (filter (\<lambda>x. x \<noteq> sentinel) xs))"
| "sanitize (JObj kvs) =
     JObj (map (\<lambda>entry. (fst entry, sanitize (snd entry)))
               (filter (\<lambda>entry. snd entry \<noteq> sentinel) kvs))"
| "sanitize v = v"

section \<open>Request body: tool names (transform.ts)\<close>

definition BUILTIN_TOOL_TYPES :: "string list" where
  "BUILTIN_TOOL_TYPES =
     [''web_search'', ''computer'', ''text_editor'', ''bash'', ''code_execution'',
      ''memory'', ''web_fetch'', ''tool_search'']"

fun typeof :: "jsvalue \<Rightarrow> string" where
  "typeof JUndefined = ''undefined''"
| "typeof JNull = ''object''"
| "typeof (JBool b) = ''boolean''"
| "typeof (JNum x) = ''number''"
| "typeof (JStr s) = ''string''"
| "typeof (JArr xs) = ''object''"
| "typeof (JObj kvs) = ''object''"
| "typeof (JHost k) = (if k = ''__proto__'' then ''object'' else ''function'')"

definition nullish :: "jsvalue \<Rightarrow> bool" where
  "nullish v = (v = JNull \<or> v = JUndefined)"

text \<open>\<^verbatim>\<open>tool.type\<close> on \<^verbatim>\<open>null\<close> throws; the callers do not guard it.\<close>

definition isBuiltinTool :: "jsvalue \<Rightarrow> error + bool" where
  "isBuiltinTool tool =
     (if nullish tool then Inl TypeError
      else if \<not> truthy (get_prop tool ''type'') \<or> typeof (get_prop tool ''type'') \<noteq> ''string''
      then Inr False
      else (case get_prop tool ''type'' of
              JStr t \<Rightarrow> Inr (list_ex (\<lambda>p. prefix p t) BUILTIN_TOOL_TYPES)
            | _ \<Rightarrow> Inr False))"

text \<open>\<^verbatim>\<open>x.name = mapName(x.name) ?? x.name\<close>.\<close>

definition rename :: "runtime \<Rightarrow> jsvalue \<Rightarrow> jsvalue" where
  "rename rt x =
     set_prop x ''name'' (nullish_or (mapName rt (get_prop x ''name'')) (get_prop x ''name''))"

definition transformTool :: "runtime \<Rightarrow> jsvalue \<Rightarrow> error + jsvalue" where
  "transformTool rt tool =
     (case isBuiltinTool tool of
        Inl e \<Rightarrow> Inl e
      | Inr builtin \<Rightarrow>
          Inr (if builtin then tool
               else if truthy (get_prop tool ''name'') then rename rt tool
               else tool))"

text \<open>
  A callback that may throw, applied to the elements in order: the first exception ends
  the loop. This is \<^verbatim>\<open>forEach\<close> with a callback that updates the element, and the
  conversion of the elements by \<^verbatim>\<open>join\<close>.
\<close>

fun forEach :: "('a \<Rightarrow> error + 'b) \<Rightarrow> 'a list \<Rightarrow> error + 'b list" where
  "forEach f [] = Inr []"
| "forEach f (x # xs) =
     (case f x of
        Inl e \<Rightarrow> Inl e
      | Inr y \<Rightarrow> (case forEach f xs of Inl e \<Rightarrow> Inl e | Inr ys \<Rightarrow> Inr (y # ys)))"

definition transformBlock :: "runtime \<Rightarrow> jsvalue \<Rightarrow> jsvalue" where
  "transformBlock rt block =
     (if nullish block then block
      else if get_prop block ''type'' = JStr ''tool_use'' \<and> truthy (get_prop block ''name'')
      then rename rt block
      else block)"

definition transformMessage :: "runtime \<Rightarrow> jsvalue \<Rightarrow> jsvalue" where
  "transformMessage rt message =
     (if nullish message then message
      else (case get_prop message ''content'' of
              JArr blocks \<Rightarrow> set_prop message ''content'' (JArr (map (transformBlock rt) blocks))
            | _ \<Rightarrow> message))"

definition transformTools :: "runtime \<Rightarrow> jsvalue \<Rightarrow> error + jsvalue" where
  "transformTools rt body =
     (case get_prop body ''tools'' of
        JArr tools \<Rightarrow>
          (case forEach (transformTool rt) tools of
             Inl e \<Rightarrow> Inl e
           | Inr tools' \<Rightarrow> Inr (set_prop body ''tools'' (JArr tools')))
      | _ \<Rightarrow> Inr body)"

definition transformMessages :: "runtime \<Rightarrow> jsvalue \<Rightarrow> jsvalue" where
  "transformMessages rt body =
     (case get_prop body ''messages'' of
        JArr messages \<Rightarrow> set_prop body ''messages'' (JArr (map (transformMessage rt) messages))
      | _ \<Rightarrow> body)"

definition transformRequestBody :: "runtime \<Rightarrow> jsvalue \<Rightarrow> error + jsvalue" where
  "transformRequestBody rt body =
     (if \<not> truthy body \<or> typeof body \<noteq> ''object'' then Inr body
      else (case transformTools rt body of
              Inl e \<Rightarrow> Inl e
            | Inr body' \<Rightarrow> Inr (transformMessages rt body')))"

section \<open>Conversions (the server module)\<close>

text \<open>
  The conversion \<^verbatim>\<open>join\<close> applies to an element: \<^verbatim>\<open>null\<close> and
  \<^verbatim>\<open>undefined\<close> give the empty string, a string is itself, any other value is
  converted by the runtime, which throws a \<^verbatim>\<open>TypeError\<close> when the value has no
  primitive form.
\<close>

definition js_string :: "runtime \<Rightarrow> jsvalue \<Rightarrow> error + string" where
  "js_string rt v =
     (case v of
        JStr s \<Rightarrow> Inr s
      | JNull \<Rightarrow> Inr []
      | JUndefined \<Rightarrow> Inr []
      | _ \<Rightarrow> (case ToString rt v of Some s \<Rightarrow> Inr s | None \<Rightarrow> Inl TypeError))"

text \<open>
  \<^verbatim>\<open>v < n\<close> for a number \<open>n\<close>: decided here when \<open>v\<close> is a number, by the runtime
  otherwise, which throws when \<open>v\<close> has no primitive form.
\<close>

definition js_less :: "runtime \<Rightarrow> jsvalue \<Rightarrow> rat \<Rightarrow> error + bool" where
  "js_less rt v n =
     (case v of
        JNum x \<Rightarrow> Inr (x < n)
      | _ \<Rightarrow> (case coerced_less rt v n of Some b \<Rightarrow> Inr b | None \<Rightarrow> Inl TypeError))"

abbreviation nl :: string where
  "nl \<equiv> [CHR 0x0A]"

text \<open>\<^verbatim>\<open>parts.join(sep)\<close> on strings.\<close>

fun js_join :: "string \<Rightarrow> string list \<Rightarrow> string" where
  "js_join sep [] = []"
| "js_join sep [p] = p"
| "js_join sep (p # q # ps) = p @ sep @ js_join sep (q # ps)"

text \<open>\<^verbatim>\<open>s.includes(p)\<close>.\<close>

fun js_includes :: "string \<Rightarrow> string \<Rightarrow> bool" where
  "js_includes [] p = (p = [])"
| "js_includes (c # cs) p = (prefix p (c # cs) \<or> js_includes cs p)"

section \<open>System prompt substitution (the server module)\<close>

definition SEGMENT_ONE :: string where
  "SEGMENT_ONE =
     ''You are Claude Code, Anthropic's official CLI for Claude.''"

definition SEGMENT_TWO :: string where
  "SEGMENT_TWO =
     ''You are an interactive CLI tool that helps users with software ''
     @ ''engineering tasks. Use the instructions below and the tools available ''
     @ ''to you to assist the user.''
     @ nl
     @ nl
     @ ''# Tone and style''
     @ nl
     @ ''- Only use emojis if the user explicitly requests it. Avoid using ''
     @ ''emojis in all communication unless asked.''
     @ nl
     @ ''- Your output will be displayed on a command line interface. Your ''
     @ ''responses should be short and concise. You can use Github-flavored ''
     @ ''markdown for formatting, and will be rendered in a monospace font using ''
     @ ''the CommonMark specification.''
     @ nl
     @ ''- Output text to communicate with the user; all text you output outside ''
     @ ''of tool use is displayed to the user. Only use tools to complete tasks. ''
     @ ''Never use tools like Bash or code comments as means to communicate with ''
     @ ''the user during the session.''
     @ nl
     @ nl
     @ ''# Doing tasks''
     @ nl
     @ ''The user will primarily request you perform software engineering tasks. ''
     @ ''This includes solving bugs, adding new functionality, refactoring code, ''
     @ ''explaining code, and more.''
     @ nl
     @ nl
     @ ''Here is useful information about the environment you are running in:''
     @ nl
     @ ''<env>''
     @ nl
     @ ''Platform: win32''
     @ nl
     @ ''Shell: bash''
     @ nl
     @ ''</env>''"

definition CLAUDE_CODE_SYSTEM :: jsvalue where
  "CLAUDE_CODE_SYSTEM =
     JArr [JObj [(''type'', JStr ''text''),
                 (''text'', JStr SEGMENT_ONE),
                 (''cache_control'', JObj [(''type'', JStr ''ephemeral'')])],
           JObj [(''type'', JStr ''text''),
                 (''text'', JStr SEGMENT_TWO),
                 (''cache_control'', JObj [(''type'', JStr ''ephemeral'')])]]"

text \<open>The callback \<^verbatim>\<open>(s) => s.type === "text" && s.text\<close>; it throws on \<^verbatim>\<open>null\<close>.\<close>

definition isTextSegment :: "jsvalue \<Rightarrow> error + bool" where
  "isTextSegment s =
     (if nullish s then Inl TypeError
      else Inr (get_prop s ''type'' = JStr ''text'' \<and> truthy (get_prop s ''text'')))"

fun filter_err :: "('a \<Rightarrow> error + bool) \<Rightarrow> 'a list \<Rightarrow> error + 'a list" where
  "filter_err p [] = Inr []"
| "filter_err p (x # xs) =
     (case p x of
        Inl e \<Rightarrow> Inl e
      | Inr keep \<Rightarrow>
          (case filter_err p xs of
             Inl e \<Rightarrow> Inl e
           | Inr ys \<Rightarrow> Inr (if keep then x # ys else ys)))"

text \<open>
  The first half of \<^verbatim>\<open>injectSystemPrompt\<close>: \<^verbatim>\<open>clientSystem\<close>, \<open>None\<close> for
  \<^verbatim>\<open>null\<close>. The callback of \<^verbatim>\<open>filter\<close> and the conversions of
  \<^verbatim>\<open>texts.join("\n\n")\<close> may throw.
\<close>

definition clientSystem :: "runtime \<Rightarrow> jsvalue \<Rightarrow> error + string option" where
  "clientSystem rt system =
     (if \<not> truthy system then Inr None
      else (case system of
              JStr s \<Rightarrow> Inr (Some s)
            | JArr segments \<Rightarrow>
                (case filter_err isTextSegment segments of
                   Inl e \<Rightarrow> Inl e
                 | Inr kept \<Rightarrow>
                     (let texts = map (\<lambda>s. get_prop s ''text'') kept
                      in if length texts > 0
                         then (case forEach (js_string rt) texts of
                                 Inl e \<Rightarrow> Inl e
                               | Inr strings \<Rightarrow> Inr (Some (js_join (nl @ nl) strings)))
                         else Inr None))
            | _ \<Rightarrow> Inr None))"

text \<open>\<^verbatim>\<open>messages.findIndex((m) => m.role === "user")\<close>, \<open>None\<close> for \<open>-1\<close>.\<close>

fun findIndex_user :: "jsvalue list \<Rightarrow> error + nat option" where
  "findIndex_user [] = Inr None"
| "findIndex_user (m # ms) =
     (if nullish m then Inl TypeError
      else if get_prop m ''role'' = JStr ''user'' then Inr (Some 0)
      else (case findIndex_user ms of
              Inl e \<Rightarrow> Inl e
            | Inr None \<Rightarrow> Inr None
            | Inr (Some i) \<Rightarrow> Inr (Some (Suc i))))"

definition system_prefix :: "string \<Rightarrow> string" where
  "system_prefix text =
     ''[System Instructions]'' @ nl @ text @ nl @ ''[End System Instructions]'' @ nl @ nl"

definition relocate :: "string \<Rightarrow> jsvalue \<Rightarrow> jsvalue" where
  "relocate text msg =
     (case get_prop msg ''content'' of
        JStr content \<Rightarrow> set_prop msg ''content'' (JStr (system_prefix text @ content))
      | JArr blocks \<Rightarrow>
          set_prop msg ''content''
            (JArr (JObj [(''type'', JStr ''text''), (''text'', JStr (system_prefix text))] # blocks))
      | _ \<Rightarrow> msg)"

text \<open>
  The module is an ES module, so the assignment \<^verbatim>\<open>body.system = ...\<close> throws on a
  primitive body, as the read \<^verbatim>\<open>body.system\<close> does on \<^verbatim>\<open>null\<close>. An array body takes
  the property, which \<^verbatim>\<open>JSON.stringify\<close> does not print: the model, which keeps what is
  printed, returns the array as it is.
\<close>

definition injectSystemPrompt :: "runtime \<Rightarrow> jsvalue \<Rightarrow> error + jsvalue" where
  "injectSystemPrompt rt body =
     (case body of
        JObj kvs \<Rightarrow>
          (case clientSystem rt (get_prop body ''system'') of
             Inl e \<Rightarrow> Inl e
           | Inr captured \<Rightarrow>
               (let body' = set_prop body ''system'' CLAUDE_CODE_SYSTEM
                in case captured of
                     None \<Rightarrow> Inr body'
                   | Some text \<Rightarrow>
                       if text = [] then Inr body'
                       else (case get_prop body' ''messages'' of
                               JArr messages \<Rightarrow>
                                 (case findIndex_user messages of
                                    Inl e \<Rightarrow> Inl e
                                  | Inr None \<Rightarrow> Inr body'
                                  | Inr (Some i) \<Rightarrow>
                                      Inr (set_prop body' ''messages''
                                             (JArr (messages[i := relocate text (messages ! i)]))))
                             | _ \<Rightarrow> Inr body')))
      | JArr xs \<Rightarrow> Inr body
      | JHost k \<Rightarrow> Inr body
      | _ \<Rightarrow> Inl TypeError)"

section \<open>Thinking injection (the server module)\<close>

definition CLAUDE_46_PATTERNS :: "string list" where
  "CLAUDE_46_PATTERNS = [''claude-opus-4'', ''claude-4-opus'', ''claude-opus-4-6'']"

definition CLAUDE_THINKING_PATTERNS :: "string list" where
  "CLAUDE_THINKING_PATTERNS =
     [''claude-3-5-sonnet'', ''claude-3.5-sonnet'', ''claude-3-7-sonnet'',
      ''claude-3.7-sonnet'', ''claude-4'', ''claude-sonnet-4'', ''claude-opus-4'']"

definition DEFAULT_THINKING_BUDGET :: rat where
  "DEFAULT_THINKING_BUDGET = 10000"

definition isClaude46Model :: "string \<Rightarrow> bool" where
  "isClaude46Model modelId =
     (let lower = toLowerCase modelId in list_ex (\<lambda>p. js_includes lower p) CLAUDE_46_PATTERNS)"

definition isClaudeThinkingModel :: "string \<Rightarrow> bool" where
  "isClaudeThinkingModel modelId =
     (let lower = toLowerCase modelId in list_ex (\<lambda>p. js_includes lower p) CLAUDE_THINKING_PATTERNS)"

text \<open>
  \<^verbatim>\<open>body.thinking\<close> throws on \<^verbatim>\<open>null\<close>; \<^verbatim>\<open>model.toLowerCase()\<close> throws when the
  model is truthy and not a string; the comparison of \<^verbatim>\<open>max_tokens\<close> throws when
  its value has no primitive form.
\<close>

definition injectThinking :: "runtime \<Rightarrow> jsvalue \<Rightarrow> error + jsvalue" where
  "injectThinking rt body =
     (if nullish body then Inl TypeError
      else if get_prop body ''thinking'' \<noteq> JUndefined then Inr body
      else (let model = get_prop body ''model''
            in if \<not> truthy model then Inr body
               else (case model of
                       JStr m \<Rightarrow>
                         if isClaude46Model m
                         then Inr (set_prop body ''thinking'' (JObj [(''type'', JStr ''adaptive'')]))
                         else if isClaudeThinkingModel m
                         then (let body' = set_prop body ''thinking''
                                             (JObj [(''type'', JStr ''enabled''),
                                                    (''budget_tokens'', JNum DEFAULT_THINKING_BUDGET)]);
                                   raised = set_prop body' ''max_tokens''
                                              (JNum (DEFAULT_THINKING_BUDGET + 4096))
                               in if \<not> truthy (get_prop body' ''max_tokens'') then Inr raised
                                  else (case js_less rt (get_prop body' ''max_tokens'')
                                               (DEFAULT_THINKING_BUDGET + 4096) of
                                          Inl e \<Rightarrow> Inl e
                                        | Inr below \<Rightarrow> Inr (if below then raised else body')))
                         else Inr body
                     | _ \<Rightarrow> Inl TypeError)))"

section \<open>The request path of handleRequest (the server module)\<close>

definition bind_err :: "error + 'a \<Rightarrow> ('a \<Rightarrow> error + 'b) \<Rightarrow> error + 'b" where
  "bind_err r f = (case r of Inl e \<Rightarrow> Inl e | Inr x \<Rightarrow> f x)"

definition transformRequest :: "runtime \<Rightarrow> jsvalue \<Rightarrow> error + jsvalue" where
  "transformRequest rt parsed =
     (let cleaned = cleanUndefined parsed
      in bind_err (transformRequestBody rt cleaned) (\<lambda>transformed.
         bind_err (injectSystemPrompt rt transformed) (\<lambda>injected.
         injectThinking rt injected)))"

section \<open>Response body: stringified tool input (transform.ts)\<close>

text \<open>
  \<^verbatim>\<open>typeof value === "string" && (value.startsWith("[") || value.startsWith("{"))\<close>:
  the string to parse, if the value is one.
\<close>

definition stringified :: "jsvalue \<Rightarrow> string option" where
  "stringified value =
     (case value of
        JStr s \<Rightarrow> if prefix ''['' s \<or> prefix ''{'' s then Some s else None
      | _ \<Rightarrow> None)"

text \<open>
  \<^verbatim>\<open>typeof block.input === "object"\<close> admits an object and an array. The loop over
  \<^verbatim>\<open>Object.keys(block.input)\<close> reads \<^verbatim>\<open>input[key]\<close> and assigns the parsed value
  when \<^verbatim>\<open>JSON.parse\<close> returns; the keys of an array are its indices. \<open>repairKey\<close>
  and \<open>repairIndex\<close> are the body of the loop for an object and for an array.
\<close>

definition repairKey :: "runtime \<Rightarrow> string \<Rightarrow> jsvalue \<Rightarrow> jsvalue" where
  "repairKey rt key inp =
     (case stringified (get_prop inp key) of
        None \<Rightarrow> inp
      | Some s \<Rightarrow>
          (case JSON_parse rt s of
             Some parsed \<Rightarrow> set_prop inp key parsed
           | None \<Rightarrow> inp))"

definition repairIndex :: "runtime \<Rightarrow> nat \<Rightarrow> jsvalue list \<Rightarrow> jsvalue list" where
  "repairIndex rt i ys =
     (case stringified (ys ! i) of
        None \<Rightarrow> ys
      | Some s \<Rightarrow>
          (case JSON_parse rt s of
             Some parsed \<Rightarrow> ys[i := parsed]
           | None \<Rightarrow> ys))"

definition repairInput :: "runtime \<Rightarrow> jsvalue \<Rightarrow> jsvalue" where
  "repairInput rt input =
     (case input of
        JObj kvs \<Rightarrow> fold (repairKey rt) (map fst kvs) input
      | JArr xs \<Rightarrow> JArr (fold (repairIndex rt) [0..<length xs] xs)
      | _ \<Rightarrow> input)"

text \<open>
  The Response Repairer's rule for one value as section 4.4 of the specification words it:
  a string that begins with \<^verbatim>\<open>[\<close> or \<^verbatim>\<open>{\<close> is replaced by its parse when the parse
  succeeds and left as it is when the parse fails; any other value is left as it is.
\<close>

definition repaired :: "runtime \<Rightarrow> jsvalue \<Rightarrow> jsvalue" where
  "repaired rt value =
     (case value of
        JStr s \<Rightarrow>
          if prefix ''['' s \<or> prefix ''{'' s
          then (case JSON_parse rt s of Some parsed \<Rightarrow> parsed | None \<Rightarrow> value)
          else value
      | _ \<Rightarrow> value)"

definition repairBlock :: "runtime \<Rightarrow> jsvalue \<Rightarrow> jsvalue" where
  "repairBlock rt block =
     (if nullish block \<or> get_prop block ''type'' \<noteq> JStr ''tool_use''
         \<or> \<not> truthy (get_prop block ''input'')
         \<or> typeof (get_prop block ''input'') \<noteq> ''object''
      then block
      else set_prop block ''input'' (repairInput rt (get_prop block ''input'')))"

definition transformResponseBody :: "runtime \<Rightarrow> jsvalue \<Rightarrow> jsvalue" where
  "transformResponseBody rt body =
     (if \<not> truthy body then body
      else (case get_prop body ''content'' of
              JArr blocks \<Rightarrow> set_prop body ''content'' (JArr (map (repairBlock rt) blocks))
            | _ \<Rightarrow> body))"

section \<open>Server-sent events (transform.ts and the server module)\<close>

text \<open>
  \<^verbatim>\<open>String.prototype.trim\<close> removes white space and line terminators from both ends;
  these are their UTF-8 encodings (U+0009 to U+000D, U+0020, U+00A0, U+1680, U+2000 to
  U+200A, U+2028, U+2029, U+202F, U+205F, U+3000, U+FEFF).
\<close>

definition WHITE_SPACE :: "string list" where
  "WHITE_SPACE =
     [[CHR 0x09], [CHR 0x0A], [CHR 0x0B], [CHR 0x0C], [CHR 0x0D], [CHR 0x20],
      [CHR 0xC2, CHR 0xA0], [CHR 0xE1, CHR 0x9A, CHR 0x80],
      [CHR 0xE2, CHR 0x80, CHR 0x80], [CHR 0xE2, CHR 0x80, CHR 0x81],
      [CHR 0xE2, CHR 0x80, CHR 0x82], [CHR 0xE2, CHR 0x80, CHR 0x83],
      [CHR 0xE2, CHR 0x80, CHR 0x84], [CHR 0xE2, CHR 0x80, CHR 0x85],
      [CHR 0xE2, CHR 0x80, CHR 0x86], [CHR 0xE2, CHR 0x80, CHR 0x87],
      [CHR 0xE2, CHR 0x80, CHR 0x88], [CHR 0xE2, CHR 0x80, CHR 0x89],
      [CHR 0xE2, CHR 0x80, CHR 0x8A], [CHR 0xE2, CHR 0x80, CHR 0xA8],
      [CHR 0xE2, CHR 0x80, CHR 0xA9], [CHR 0xE2, CHR 0x80, CHR 0xAF],
      [CHR 0xE2, CHR 0x81, CHR 0x9F], [CHR 0xE3, CHR 0x80, CHR 0x80],
      [CHR 0xEF, CHR 0xBB, CHR 0xBF]]"

text \<open>The white-space sequence that a string starts with, if any.\<close>

definition leading_space :: "string list \<Rightarrow> string \<Rightarrow> string option" where
  "leading_space spaces s = find (\<lambda>w. w \<noteq> [] \<and> prefix w s) spaces"

function trimStart :: "string list \<Rightarrow> string \<Rightarrow> string" where
  "trimStart spaces s =
     (case leading_space spaces s of
        None \<Rightarrow> s
      | Some w \<Rightarrow> trimStart spaces (drop (length w) s))"
  by pat_completeness auto
termination
proof (relation "measure (\<lambda>(spaces, s). length s)")
  show "wf (measure (\<lambda>(spaces, s). length s))"
    by simp
next
  fix spaces :: "string list" and s w :: string
  assume "leading_space spaces s = Some w"
  then have "w \<noteq> [] \<and> prefix w s"
    unfolding leading_space_def by (auto simp: find_Some_iff)
  then have "s \<noteq> []" "0 < length w"
    by auto
  then show "((spaces, drop (length w) s), (spaces, s)) \<in> measure (\<lambda>(spaces, s). length s)"
    by simp
qed

definition trim :: "string \<Rightarrow> string" where
  "trim s = rev (trimStart (map rev WHITE_SPACE) (rev (trimStart WHITE_SPACE s)))"

text \<open>
  \<^verbatim>\<open>JSON.parse\<close> throwing and the \<^verbatim>\<open>TypeError\<close> of \<^verbatim>\<open>data.type\<close> on a parsed
  \<^verbatim>\<open>null\<close> both end in the \<^verbatim>\<open>catch\<close> block, which returns the line.
\<close>

definition transformSSELine :: "runtime \<Rightarrow> string \<Rightarrow> string" where
  "transformSSELine rt line =
     (if \<not> prefix ''data:'' line then line
      else (let jsonStr = trim (drop 5 line)
            in if jsonStr = [] \<or> jsonStr = ''[DONE]'' then line
               else (case JSON_parse rt jsonStr of
                       None \<Rightarrow> line
                     | Some data \<Rightarrow>
                         if nullish data then line
                         else (let content_block = get_prop data ''content_block''
                               in if get_prop data ''type'' = JStr ''content_block_start''
                                     \<and> \<not> nullish content_block
                                     \<and> get_prop content_block ''type'' = JStr ''tool_use''
                                     \<and> truthy (get_prop content_block ''name'')
                                  then ''data: '' @ JSON_stringify rt
                                         (set_prop data ''content_block'' (rename rt content_block))
                                  else line))))"

text \<open>\<^verbatim>\<open>s.split(sep)\<close> for a separator that is not empty.\<close>

function js_split :: "string \<Rightarrow> string \<Rightarrow> string list" where
  "js_split sep [] = [[]]"
| "js_split sep (c # cs) =
     (if sep \<noteq> [] \<and> prefix sep (c # cs)
      then [] # js_split sep (drop (length sep) (c # cs))
      else (case js_split sep cs of
              p # ps \<Rightarrow> (c # p) # ps
            | [] \<Rightarrow> [[c]]))"
  by pat_completeness auto
termination
  by (relation "measure (\<lambda>(sep, s). length s)") auto

text \<open>One event: \<^verbatim>\<open>part.split("\n").map(transformSSELine).join("\n")\<close>.\<close>

definition transformEvent :: "runtime \<Rightarrow> string \<Rightarrow> string" where
  "transformEvent rt part = js_join nl (map (transformSSELine rt) (js_split nl part))"

text \<open>
  \<^verbatim>\<open>chunk.toString("utf-8")\<close> decodes one chunk on its own. The decoder keeps the bytes
  of a well-formed sequence and puts U+FFFD (here its encoding EF BF BD) for every
  maximal ill-formed part, among them a sequence that the end of the chunk cuts short.
  The state is the bytes of the sequence under way, the number of bytes it still needs,
  and the range the next byte has to be in.
\<close>

definition REPLACEMENT :: string where
  "REPLACEMENT = [CHR 0xEF, CHR 0xBF, CHR 0xBD]"

type_synonym utf8_state = "string \<times> nat \<times> nat \<times> nat"

definition utf8_idle :: utf8_state where
  "utf8_idle = ([], 0, 0x80, 0xBF)"

definition utf8_lead :: "char \<Rightarrow> string \<times> utf8_state" where
  "utf8_lead b =
     (let n = (of_char b :: nat)
      in if n \<le> 0x7F then ([b], utf8_idle)
         else if 0xC2 \<le> n \<and> n \<le> 0xDF then ([], ([b], 1, 0x80, 0xBF))
         else if 0xE0 \<le> n \<and> n \<le> 0xEF
         then ([], ([b], 2, if n = 0xE0 then 0xA0 else 0x80, if n = 0xED then 0x9F else 0xBF))
         else if 0xF0 \<le> n \<and> n \<le> 0xF4
         then ([], ([b], 3, if n = 0xF0 then 0x90 else 0x80, if n = 0xF4 then 0x8F else 0xBF))
         else (REPLACEMENT, utf8_idle))"

definition utf8_step :: "utf8_state \<Rightarrow> char \<Rightarrow> string \<times> utf8_state" where
  "utf8_step st b =
     (case st of (seen, needed, lower, upper) \<Rightarrow>
        if needed = 0 then utf8_lead b
        else if lower \<le> (of_char b :: nat) \<and> (of_char b :: nat) \<le> upper
        then (if needed = 1 then (seen @ [b], utf8_idle)
              else ([], (seen @ [b], needed - 1, 0x80, 0xBF)))
        else (case utf8_lead b of (out, st') \<Rightarrow> (REPLACEMENT @ out, st')))"

fun utf8_decode :: "utf8_state \<Rightarrow> string \<Rightarrow> string" where
  "utf8_decode st [] = (case st of (seen, needed, lower, upper) \<Rightarrow>
                          if needed = 0 then [] else REPLACEMENT)"
| "utf8_decode st (b # bs) =
     (case utf8_step st b of (out, st') \<Rightarrow> out @ utf8_decode st' bs)"

definition toString_utf8 :: "string \<Rightarrow> string" where
  "toString_utf8 chunk = utf8_decode utf8_idle chunk"

text \<open>
  The streaming branch of \<^verbatim>\<open>forwardRequest\<close>: the state is the buffer and the writes
  to the client so far. \<^verbatim>\<open>onData\<close> is the handler of \<^verbatim>\<open>"data"\<close>, \<^verbatim>\<open>onEnd\<close> that
  of \<^verbatim>\<open>"end"\<close>; \<^verbatim>\<open>relay\<close> runs them over the chunks the upstream delivers.
\<close>

record relay_state =
  buffer :: string
  written :: "string list"

definition onData :: "runtime \<Rightarrow> relay_state \<Rightarrow> string \<Rightarrow> relay_state" where
  "onData rt st chunk =
     (let buffer' = buffer st @ toString_utf8 chunk;
          parts = js_split (nl @ nl) buffer'
      in \<lparr> buffer = last parts,
           written = written st @ map (\<lambda>part. transformEvent rt part @ nl @ nl) (butlast parts) \<rparr>)"

definition onEnd :: "runtime \<Rightarrow> relay_state \<Rightarrow> string list" where
  "onEnd rt st =
     (if trim (buffer st) \<noteq> []
      then written st @ [transformEvent rt (buffer st) @ nl @ nl]
      else written st)"

definition relay :: "runtime \<Rightarrow> string list \<Rightarrow> string list" where
  "relay rt chunks =
     onEnd rt (fold (\<lambda>chunk st. onData rt st chunk) chunks \<lparr> buffer = [], written = [] \<rparr>)"

section \<open>A runtime for concrete inputs\<close>

text \<open>
  Where a theorem is applied to a concrete input, the runtime is this one. Each of its
  built-ins is a table of what the examples use, with the values JavaScript gives:
  \<^verbatim>\<open>JSON.parse\<close> knows two texts and rejects every other one, among them the
  malformed \<^verbatim>\<open>[1,2\<close>; \<^verbatim>\<open>JSON.stringify\<close> prints one event; the conversions know
  the booleans; the capital initial knows the e with acute accent (C3 A9, to C3 89) and
  the sharp s (C3 9F, to \<^verbatim>\<open>SS\<close>) and leaves every other name as it is.
\<close>

definition TOOL_START_TEXT :: "string \<Rightarrow> string" where
  \<open>TOOL_START_TEXT name =
     ''{"type":"content_block_start","content_block":{"type":"tool_use","name":"''
     @ name @ ''"}}''\<close>

definition TOOL_START :: "string \<Rightarrow> jsvalue" where
  "TOOL_START name =
     JObj [(''type'', JStr ''content_block_start''),
           (''content_block'', JObj [(''type'', JStr ''tool_use''), (''name'', JStr name)])]"

definition example_runtime :: runtime where
  "example_runtime =
     \<lparr> JSON_parse = (\<lambda>s. if s = ''[1,2,3]'' then Some (JArr [JNum 1, JNum 2, JNum 3])
                          else if s = TOOL_START_TEXT ''todowrite''
                          then Some (TOOL_START ''todowrite'')
                          else None),
       JSON_stringify = (\<lambda>v. if v = TOOL_START ''TodoWrite''
                              then TOOL_START_TEXT ''TodoWrite'' else []),
       ToString = (\<lambda>v. case v of JBool b \<Rightarrow> Some (if b then ''true'' else ''false'')
                              | _ \<Rightarrow> None),
       coerced_less = (\<lambda>v n. case v of JBool b \<Rightarrow> Some ((if b then 1 else 0) < n)
                                  | _ \<Rightarrow> None),
       toUpperCase_initial =
         (\<lambda>name. if prefix [CHR 0xC3, CHR 0xA9] name then [CHR 0xC3, CHR 0x89] @ drop 2 name
                  else if prefix [CHR 0xC3, CHR 0x9F] name then ''SS'' @ drop 2 name
                  else name) \<rparr>"

section \<open>Shapes of requests\<close>

text \<open>An array none of whose elements is \<^verbatim>\<open>null\<close>; any other value passes.\<close>

definition elements_present :: "jsvalue \<Rightarrow> bool" where
  "elements_present v = (case v of JArr xs \<Rightarrow> list_all (\<lambda>x. \<not> nullish x) xs | _ \<Rightarrow> True)"

text \<open>
  Every text that \<^verbatim>\<open>injectSystemPrompt\<close> collects from an array of segments has a
  string form: a text segment whose text is a string has, whatever the runtime.
\<close>

definition texts_convert :: "runtime \<Rightarrow> jsvalue \<Rightarrow> bool" where
  "texts_convert rt v =
     (case v of
        JArr xs \<Rightarrow>
          list_all (\<lambda>s. get_prop s ''type'' = JStr ''text'' \<and> truthy (get_prop s ''text'')
                         \<longrightarrow> js_string rt (get_prop s ''text'') \<noteq> Inl TypeError) xs
      | _ \<Rightarrow> True)"

text \<open>The request of section 8 of the specification.\<close>

definition BE_TERSE :: jsvalue where
  "BE_TERSE =
     JObj [(''model'', JStr ''claude-3-7-sonnet-20250219''),
           (''system'', JStr ''Be terse''),
           (''messages'', JArr [JObj [(''role'', JStr ''user''), (''content'', JStr ''hello'')]])]"

section \<open>Tool names: results\<close>
















text \<open>
  Outside the names that \<^verbatim>\<open>Object.prototype\<close> defines, \<^verbatim>\<open>mapName\<close> is the table
  first and the capital initial otherwise, and it returns what is not a non-empty string
  as it is.
\<close>

lemma mapName_own_keys:
  assumes "s \<notin> set Object_prototype_names"
  shows "mapName rt (JStr s) =
           (case map_of NAME_MAP s of Some v \<Rightarrow> JStr v | None \<Rightarrow> JStr (capitalise rt s))"
proof (cases s)
  case Nil
  then show ?thesis
    by (simp add: NAME_MAP_def capitalise_def)
next
  case (Cons c cs)
  show ?thesis
  proof (cases "map_of NAME_MAP s")
    case None
    then show ?thesis
      using assms Cons by (simp add: NAME_MAP_at_def)
  next
    case (Some v)
    then have "(s, v) \<in> set NAME_MAP"
      by (rule map_of_SomeD)
    then have "v \<noteq> []"
      by (auto simp: NAME_MAP_def)
    then show ?thesis
      using Some Cons by (simp add: NAME_MAP_at_def)
  qed
qed

lemma mapName_examples:
  "mapName rt (JStr ''todowrite'') = JStr ''TodoWrite''"
  "mapName rt (JStr ''my_tool'') = JStr ''My_tool''"
  "mapName rt JUndefined = JUndefined"
  "mapName rt JNull = JNull"
  "mapName rt (JStr []) = JStr []"
  "mapName rt (JNum 7) = JNum 7"
  by (simp_all add: NAME_MAP_at_def NAME_MAP_def Object_prototype_names_def capitalise_def
      is_ascii_def toUpperCase_char_def ascii_lower_def ascii_upper_def)

text \<open>
  C9. The claim: \<^verbatim>\<open>mapName\<close> returns the table's canonical form for a key of the table
  and otherwise the input with its first character in upper case. The name
  \<^verbatim>\<open>constructor\<close> is no key of the table, yet \<^verbatim>\<open>NAME_MAP["constructor"]\<close> is the
  function that the object literal inherits, which is truthy, so \<^verbatim>\<open>mapName\<close> returns
  that function and not the string \<^verbatim>\<open>Constructor\<close>, on every runtime.
\<close>

theorem mapName_inherited_member:
  "map_of NAME_MAP ''constructor'' = None
   \<and> mapName rt (JStr ''constructor'') = JHost ''constructor''
   \<and> mapName rt (JStr ''constructor'') \<noteq> JStr ''Constructor''"
  by (simp add: NAME_MAP_at_def NAME_MAP_def Object_prototype_names_def)




section \<open>Deep removal of the sentinel: results\<close>

lemma set_entry_fresh:
  "k \<notin> fst ` set kvs \<Longrightarrow> set_entry k v kvs = kvs @ [(k, v)]"
  by (induction kvs) auto

text \<open>The loop of \<^verbatim>\<open>cleanUndefined\<close> over entries with different keys appends the kept ones.\<close>

lemma clean_loop_appends:
  assumes "distinct (map fst kvs)" "fst ` set acc \<inter> fst ` set kvs = {}"
    and "''__proto__'' \<notin> fst ` set kvs"
  shows "fold (\<lambda>entry cleaned. if snd entry = sentinel then cleaned
                else assign_fresh (fst entry) (f (snd entry)) cleaned) kvs acc
         = acc @ map (\<lambda>entry. (fst entry, f (snd entry)))
                   (filter (\<lambda>entry. snd entry \<noteq> sentinel) kvs)"
  using assms
proof (induction kvs arbitrary: acc)
  case Nil
  then show ?case by simp
next
  case (Cons e kvs)
  show ?case
  proof (cases "snd e = sentinel")
    case True
    then show ?thesis
      using Cons.IH[of acc] Cons.prems by auto
  next
    case False
    have fresh: "fst e \<notin> fst ` set acc"
      using Cons.prems by auto
    have "fst ` set (acc @ [(fst e, f (snd e))]) \<inter> fst ` set kvs = {}"
      using Cons.prems by auto
    then show ?thesis
      using False Cons.IH[of "acc @ [(fst e, f (snd e))]"] Cons.prems
      by (auto simp: set_entry_fresh[OF fresh] assign_fresh_def)
  qed
qed

lemma cleanUndefined_sanitize: "wf_value v \<Longrightarrow> cleanUndefined v = sanitize v"
proof (induction v rule: cleanUndefined.induct)
  case (1 xs)
  then show ?case
    by (auto simp: list_all_iff)
next
  case (2 kvs)
  have "fold (\<lambda>entry cleaned. if snd entry = sentinel then cleaned
                else assign_fresh (fst entry) (cleanUndefined (snd entry)) cleaned) kvs []
         = map (\<lambda>entry. (fst entry, cleanUndefined (snd entry)))
             (filter (\<lambda>entry. snd entry \<noteq> sentinel) kvs)"
    using clean_loop_appends[of kvs "[]" cleanUndefined] 2(2) by simp
  moreover have "map (\<lambda>entry. (fst entry, cleanUndefined (snd entry)))
                   (filter (\<lambda>entry. snd entry \<noteq> sentinel) kvs)
      = map (\<lambda>entry. (fst entry, sanitize (snd entry)))
          (filter (\<lambda>entry. snd entry \<noteq> sentinel) kvs)"
    using 2 by (auto simp: list_all_iff)
  ultimately show ?case
    by simp
qed simp_all

lemma sanitize_no_sentinel: "v \<noteq> sentinel \<Longrightarrow> \<not> contains_sentinel (sanitize v)"
proof (induction v rule: sanitize.induct)
  case (1 xs)
  then show ?case
    by (auto simp: list_ex_iff)
next
  case (2 kvs)
  then show ?case
    by (auto simp: list_ex_iff)
qed (simp_all add: sentinel_def)

lemma contains_sentinel_self: "contains_sentinel sentinel"
  by (simp add: sentinel_def)

lemma sanitize_sentinel_free: "\<not> contains_sentinel v \<Longrightarrow> sanitize v = v"
proof (induction v rule: sanitize.induct)
  case (1 xs)
  have no: "\<And>x. x \<in> set xs \<Longrightarrow> \<not> contains_sentinel x"
    using 1(2) by (simp add: list_ex_iff)
  then have ne: "\<And>x. x \<in> set xs \<Longrightarrow> x \<noteq> sentinel"
    using contains_sentinel_self by auto
  then have "filter (\<lambda>x. x \<noteq> sentinel) xs = xs"
    by (auto intro!: filter_True)
  moreover have "map sanitize xs = xs"
    using 1(1) no ne by (auto intro!: map_idI)
  ultimately show ?case
    by simp
next
  case (2 kvs)
  have no: "\<And>e. e \<in> set kvs \<Longrightarrow> \<not> contains_sentinel (snd e)"
    using 2(2) by (simp add: list_ex_iff)
  then have ne: "\<And>e. e \<in> set kvs \<Longrightarrow> snd e \<noteq> sentinel"
    using contains_sentinel_self by auto
  then have "filter (\<lambda>entry. snd entry \<noteq> sentinel) kvs = kvs"
    by (auto intro!: filter_True)
  moreover have "map (\<lambda>entry. (fst entry, sanitize (snd entry))) kvs = kvs"
    using 2(1) no ne by (auto intro!: map_idI)
  ultimately show ?case
    by simp
qed simp_all

text \<open>
  Outside \<open>wf_value\<close>: a key \<^verbatim>\<open>__proto__\<close> is not copied, whatever its value.
\<close>

lemma cleanUndefined_proto_key:
  "cleanUndefined (JObj [(''__proto__'', JNum 1), (''a'', JNum 2)]) = JObj [(''a'', JNum 2)]"
  by (simp add: assign_fresh_def sentinel_def)

text \<open>
  C1, as stated: the result of \<^verbatim>\<open>cleanUndefined\<close> contains the sentinel at no depth, for
  every value tree. It fails for the tree that is the sentinel string itself, a scalar,
  which \<^verbatim>\<open>cleanUndefined\<close> returns unchanged.
\<close>

theorem cleanUndefined_root_sentinel:
  "contains_sentinel (cleanUndefined (JStr ''[undefined]''))"
  by (simp add: sentinel_def)

text \<open>
  C1, amended. For every value tree whose objects have pairwise different keys, none of
  them \<^verbatim>\<open>__proto__\<close>: \<^verbatim>\<open>cleanUndefined\<close> returns the tree that the specification's
  sanitizer describes (array elements equal to the sentinel and keys whose value is the
  sentinel removed, everything else kept in its order and sanitized in turn); unless the
  tree is the sentinel string itself, the result contains the sentinel at no depth; and a
  tree that contains no sentinel is returned as it is.
\<close>

theorem cleanUndefined_removes_sentinels:
  assumes "wf_value v"
  shows "cleanUndefined v = sanitize v
         \<and> (v \<noteq> sentinel \<longrightarrow> \<not> contains_sentinel (cleanUndefined v))
         \<and> (\<not> contains_sentinel v \<longrightarrow> cleanUndefined v = v)"
  using assms cleanUndefined_sanitize[of v] sanitize_no_sentinel[of v] sanitize_sentinel_free[of v]
  by simp

theorem cleanUndefined_removes_sentinels_witness:
  "wf_value (JObj [(''a'', JArr [JStr ''[undefined]'', JNum 1, JStr ''x'']),
                   (''b'', JStr ''[undefined]''),
                   (''c'', JObj [(''d'', JStr ''[undefined]''), (''e'', JNull)])])
   \<and> cleanUndefined (JObj [(''a'', JArr [JStr ''[undefined]'', JNum 1, JStr ''x'']),
                           (''b'', JStr ''[undefined]''),
                           (''c'', JObj [(''d'', JStr ''[undefined]''), (''e'', JNull)])])
     = JObj [(''a'', JArr [JNum 1, JStr ''x'']), (''c'', JObj [(''e'', JNull)])]
   \<and> \<not> contains_sentinel
         (cleanUndefined (JObj [(''a'', JArr [JStr ''[undefined]'', JNum 1, JStr ''x'']),
                                (''b'', JStr ''[undefined]''),
                                (''c'', JObj [(''d'', JStr ''[undefined]''), (''e'', JNull)])]))"
  using cleanUndefined_removes_sentinels
          [of "JObj [(''a'', JArr [JStr ''[undefined]'', JNum 1, JStr ''x'']),
                     (''b'', JStr ''[undefined]''),
                     (''c'', JObj [(''d'', JStr ''[undefined]''), (''e'', JNull)])]"]
  by (simp add: sentinel_def)

section \<open>Request augmentation: results\<close>

lemma map_of_set_entry: "map_of (set_entry k v kvs) = (map_of kvs)(k \<mapsto> v)"
  by (induction kvs) auto

lemma get_prop_set_prop:
  "get_prop (set_prop (JObj kvs) k v) k' = (if k' = k then v else get_prop (JObj kvs) k')"
  by (simp add: map_of_set_entry)

lemma set_prop_JObj: "\<exists>kvs'. set_prop (JObj kvs) k v = JObj kvs'"
  by simp

lemma filter_err_present:
  "list_all (\<lambda>x. \<not> nullish x) xs \<Longrightarrow> \<exists>ys. filter_err isTextSegment xs = Inr ys"
  by (induction xs) (auto simp: isTextSegment_def)

lemma filter_err_kept:
  "filter_err isTextSegment xs = Inr ys \<Longrightarrow>
   set ys \<subseteq> {s \<in> set xs. get_prop s ''type'' = JStr ''text'' \<and> truthy (get_prop s ''text'')}"
proof (induction xs arbitrary: ys)
  case Nil
  then show ?case by simp
next
  case (Cons x xs)
  then show ?case
    by (auto simp: isTextSegment_def split: sum.splits if_splits)
qed

lemma forEach_returns:
  "\<forall>x\<in>set xs. f x \<noteq> Inl TypeError \<Longrightarrow> \<exists>ys. forEach f xs = Inr ys"
proof (induction xs)
  case Nil
  then show ?case by simp
next
  case (Cons x xs)
  then obtain y ys where "f x = Inr y" "forEach f xs = Inr ys"
    by (cases "f x") (auto intro: error.exhaust)
  then show ?case by simp
qed

lemma js_string_string: "js_string rt (JStr s) = Inr s"
  by (simp add: js_string_def)

lemma clientSystem_returns:
  assumes "elements_present system" "texts_convert rt system"
  shows "\<exists>c. clientSystem rt system = Inr c"
proof (cases system)
  case (JArr segments)
  then obtain kept where kept: "filter_err isTextSegment segments = Inr kept"
    using assms(1) filter_err_present by (auto simp: elements_present_def)
  have "\<forall>t\<in>set (map (\<lambda>s. get_prop s ''text'') kept). js_string rt t \<noteq> Inl TypeError"
    using filter_err_kept[OF kept] assms(2) JArr
    by (auto simp: texts_convert_def list_all_iff)
  then obtain strings where "forEach (js_string rt) (map (\<lambda>s. get_prop s ''text'') kept) = Inr strings"
    using forEach_returns by blast
  then show ?thesis
    using JArr kept by (simp add: clientSystem_def Let_def)
qed (simp_all add: clientSystem_def)

lemma findIndex_user_present:
  "list_all (\<lambda>x. \<not> nullish x) ms \<Longrightarrow> \<exists>r. findIndex_user ms = Inr r"
  by (induction ms) (auto split: sum.splits option.splits)

lemma findIndex_user_Some:
  "findIndex_user ms = Inr (Some i) \<Longrightarrow> i < length ms"
  by (induction ms arbitrary: i) (auto split: sum.splits option.splits if_splits)

lemma findIndex_user_first:
  assumes "i < length ms" "get_prop (ms ! i) ''role'' = JStr ''user''"
    and "\<forall>j<i. \<not> nullish (ms ! j) \<and> get_prop (ms ! j) ''role'' \<noteq> JStr ''user''"
  shows "findIndex_user ms = Inr (Some i)"
  using assms
proof (induction ms arbitrary: i)
  case Nil
  then show ?case by simp
next
  case (Cons m ms)
  show ?case
  proof (cases i)
    case 0
    then show ?thesis using Cons.prems by (auto simp: nullish_def)
  next
    case (Suc n)
    have "findIndex_user ms = Inr (Some n)"
      using Cons.prems Suc by (intro Cons.IH) auto
    moreover have "\<not> nullish m \<and> get_prop m ''role'' \<noteq> JStr ''user''"
      using Cons.prems(3) Suc by auto
    ultimately show ?thesis using Suc by simp
  qed
qed

lemma findIndex_user_none:
  assumes "\<forall>m\<in>set ms. \<not> nullish m \<and> get_prop m ''role'' \<noteq> JStr ''user''"
  shows "findIndex_user ms = Inr None"
  using assms by (induction ms) auto

lemma injectSystemPrompt_system:
  assumes "injectSystemPrompt rt (JObj kvs) = Inr out"
  shows "get_prop out ''system'' = CLAUDE_CODE_SYSTEM"
  using assms unfolding injectSystemPrompt_def
  by (auto simp: Let_def map_of_set_entry split: sum.splits option.splits if_splits jsvalue.splits)

lemma injectSystemPrompt_returns:
  assumes "elements_present (get_prop (JObj kvs) ''system'')"
    and "elements_present (get_prop (JObj kvs) ''messages'')"
    and "texts_convert rt (get_prop (JObj kvs) ''system'')"
  shows "\<exists>out. injectSystemPrompt rt (JObj kvs) = Inr out"
proof -
  obtain c where c: "clientSystem rt (get_prop (JObj kvs) ''system'') = Inr c"
    using clientSystem_returns[OF assms(1,3)] by blast
  have m: "\<And>ms. get_prop (JObj kvs) ''messages'' = JArr ms \<Longrightarrow> \<exists>r. findIndex_user ms = Inr r"
    using assms(2) findIndex_user_present by (auto simp: elements_present_def)
  show ?thesis
    unfolding injectSystemPrompt_def using c m
    by (auto simp: Let_def map_of_set_entry split: sum.splits option.splits jsvalue.splits)
qed


text \<open>Segments whose texts are strings convert on every runtime.\<close>

lemma texts_convert_strings:
  assumes "\<forall>s\<in>set segments. truthy (get_prop s ''text'') \<longrightarrow> typeof (get_prop s ''text'') = ''string''"
  shows "texts_convert rt (JArr segments)"
  unfolding texts_convert_def
proof (simp add: list_all_iff, intro ballI impI)
  fix s
  assume "s \<in> set segments"
    and "get_prop s ''type'' = JStr ''text'' \<and> truthy (get_prop s ''text'')"
  then have "typeof (get_prop s ''text'') = ''string''"
    using assms by blast
  then obtain t where "get_prop s ''text'' = JStr t"
    by (cases "get_prop s ''text''") (auto split: if_splits)
  then show "js_string rt (get_prop s ''text'') \<noteq> Inl TypeError"
    by (simp add: js_string_def)
qed

lemma get_prop_not_undefined_obj:
  "get_prop v k \<noteq> JUndefined \<Longrightarrow> \<exists>kvs. v = JObj kvs"
  by (cases v) simp_all

lemma relocate_string:
  assumes "get_prop msg ''content'' = JStr c"
  shows "get_prop (relocate text msg) ''content'' = JStr (system_prefix text @ c)"
proof -
  obtain kvs where "msg = JObj kvs"
    using assms get_prop_not_undefined_obj[of msg "''content''"] by auto
  then show ?thesis
    using assms by (simp add: relocate_def map_of_set_entry)
qed

lemma relocate_blocks:
  assumes "get_prop msg ''content'' = JArr blocks"
  shows "get_prop (relocate text msg) ''content''
         = JArr (JObj [(''type'', JStr ''text''), (''text'', JStr (system_prefix text))] # blocks)"
proof -
  obtain kvs where "msg = JObj kvs"
    using assms get_prop_not_undefined_obj[of msg "''content''"] by auto
  then show ?thesis
    using assms by (simp add: relocate_def map_of_set_entry)
qed

lemma relocate_other:
  assumes "k \<noteq> ''content''"
  shows "get_prop (relocate text msg) k = get_prop msg k"
proof (cases msg)
  case (JObj kvs)
  then show ?thesis
    using assms by (auto simp: relocate_def map_of_set_entry split: jsvalue.splits option.splits)
qed (simp_all add: relocate_def)

lemma injectSystemPrompt_captured:
  assumes "clientSystem rt (get_prop (JObj kvs) ''system'') = Inr (Some text)" "text \<noteq> []"
    and "get_prop (JObj kvs) ''messages'' = JArr messages"
    and "findIndex_user messages = Inr r"
  shows "\<exists>out. injectSystemPrompt rt (JObj kvs) = Inr out
           \<and> get_prop out ''messages''
               = (case r of None \<Rightarrow> JArr messages
                  | Some i \<Rightarrow> JArr (messages[i := relocate text (messages ! i)]))"
  using assms unfolding injectSystemPrompt_def
  by (auto simp: Let_def map_of_set_entry split: option.splits)

lemma injectThinking_present:
  assumes "\<not> nullish body" "get_prop body ''thinking'' \<noteq> JUndefined"
  shows "injectThinking rt body = Inr body"
  using assms by (simp add: injectThinking_def)

lemma isClaudeThinkingModel_37:
  assumes "js_includes (toLowerCase m) ''claude-3-7-sonnet''"
  shows "isClaudeThinkingModel m"
  using assms by (simp add: isClaudeThinkingModel_def CLAUDE_THINKING_PATTERNS_def)

lemma js_includes_nonempty: "js_includes s p \<Longrightarrow> p \<noteq> [] \<Longrightarrow> s \<noteq> []"
  by (cases s) auto

lemma injectThinking_enabled:
  assumes "get_prop (JObj kvs) ''thinking'' = JUndefined"
    and "get_prop (JObj kvs) ''model'' = JStr m"
    and "js_includes (toLowerCase m) ''claude-3-7-sonnet''"
    and "\<not> isClaude46Model m"
    and "get_prop (JObj kvs) ''max_tokens'' = JUndefined
         \<or> get_prop (JObj kvs) ''max_tokens'' = JNum x"
  shows "injectThinking rt (JObj kvs) =
           Inr (let body' = set_prop (JObj kvs) ''thinking''
                              (JObj [(''type'', JStr ''enabled''), (''budget_tokens'', JNum 10000)])
                in if get_prop (JObj kvs) ''max_tokens'' = JUndefined \<or> x < 14096
                   then set_prop body' ''max_tokens'' (JNum 14096) else body')"
proof -
  have m: "m \<noteq> []"
    using js_includes_nonempty[OF assms(3)] by (auto simp: toLowerCase_def)
  from assms(5) show ?thesis
  proof
    assume "get_prop (JObj kvs) ''max_tokens'' = JUndefined"
    then show ?thesis
      using m assms(1-4) isClaudeThinkingModel_37[OF assms(3)]
      by (simp add: injectThinking_def nullish_def Let_def DEFAULT_THINKING_BUDGET_def
          map_of_set_entry)
  next
    assume "get_prop (JObj kvs) ''max_tokens'' = JNum x"
    then show ?thesis
      using m assms(1-4) isClaudeThinkingModel_37[OF assms(3)]
      by (auto simp: injectThinking_def nullish_def Let_def DEFAULT_THINKING_BUDGET_def
          map_of_set_entry js_less_def)
  qed
qed

lemma sonnet_37_dated:
  "js_includes (toLowerCase ''claude-3-7-sonnet-20250219'') ''claude-3-7-sonnet''"
  "\<not> isClaude46Model ''claude-3-7-sonnet-20250219''"
  "isClaudeThinkingModel ''claude-3-7-sonnet-20250219''"
  by (simp_all add: isClaude46Model_def isClaudeThinkingModel_def CLAUDE_46_PATTERNS_def
      CLAUDE_THINKING_PATTERNS_def toLowerCase_def toLowerCase_char_def ascii_lower_def
      ascii_upper_def)

text \<open>A \<^verbatim>\<open>max_tokens\<close> that the runtime cannot compare makes \<^verbatim>\<open>injectThinking\<close> throw.\<close>

lemma injectThinking_incomparable:
  assumes "coerced_less rt (JObj [(''valueOf'', JNum 5), (''toString'', JNum 5)]) 14096 = None"
  shows "injectThinking rt
           (JObj [(''model'', JStr ''claude-3-7-sonnet-20250219''),
                  (''max_tokens'', JObj [(''valueOf'', JNum 5), (''toString'', JNum 5)])])
         = Inl TypeError"
  using assms sonnet_37_dated
  by (simp add: injectThinking_def nullish_def DEFAULT_THINKING_BUDGET_def js_less_def)

lemma SEGMENT_lengths: "length SEGMENT_ONE = 57 \<and> length SEGMENT_TWO = 1062"
  by (simp add: SEGMENT_ONE_def SEGMENT_TWO_def)

text \<open>
  A kept text that the runtime cannot convert makes \<^verbatim>\<open>join\<close>, and with it
  \<^verbatim>\<open>injectSystemPrompt\<close>, throw.
\<close>

lemma injectSystemPrompt_unconvertible:
  assumes "ToString rt (JObj [(''toString'', JNum 5)]) = None"
  shows "injectSystemPrompt rt
           (JObj [(''system'', JArr [JObj [(''type'', JStr ''text''),
                                           (''text'', JObj [(''toString'', JNum 5)])]])])
         = Inl TypeError"
  using assms
  by (simp add: injectSystemPrompt_def clientSystem_def isTextSegment_def nullish_def
      js_string_def)

text \<open>
  C2. For every request body (an object, whatever its properties), once
  \<^verbatim>\<open>injectSystemPrompt\<close> has returned, the \<^verbatim>\<open>system\<close> property is the constant
  \<^verbatim>\<open>CLAUDE_CODE_SYSTEM\<close>, whether the client sent no system, a string or an array; the
  function does return when neither the system array nor the message list holds a
  \<^verbatim>\<open>null\<close> and every text it collects from the system array has a string form (as
  every string has); and the constant is exactly two text segments, the identity statement
  and the preamble, each with \<^verbatim>\<open>cache_control\<close>.
\<close>

theorem injectSystemPrompt_two_segments:
  "(\<forall>out. injectSystemPrompt rt (JObj kvs) = Inr out \<longrightarrow> get_prop out ''system'' = CLAUDE_CODE_SYSTEM)
   \<and> (elements_present (get_prop (JObj kvs) ''system'')
        \<and> elements_present (get_prop (JObj kvs) ''messages'')
        \<and> texts_convert rt (get_prop (JObj kvs) ''system'')
        \<longrightarrow> (\<exists>out. injectSystemPrompt rt (JObj kvs) = Inr out))
   \<and> CLAUDE_CODE_SYSTEM =
         JArr [JObj [(''type'', JStr ''text''), (''text'', JStr SEGMENT_ONE),
                     (''cache_control'', JObj [(''type'', JStr ''ephemeral'')])],
               JObj [(''type'', JStr ''text''), (''text'', JStr SEGMENT_TWO),
                     (''cache_control'', JObj [(''type'', JStr ''ephemeral'')])]]"
  using injectSystemPrompt_system[of rt kvs] injectSystemPrompt_returns[of kvs rt]
  by (simp add: CLAUDE_CODE_SYSTEM_def)

theorem injectSystemPrompt_two_segments_witness:
  "elements_present
     (JArr [JObj [(''type'', JStr ''text''), (''text'', JStr ''Be terse'')],
            JObj [(''type'', JStr ''image'')],
            JObj [(''type'', JStr ''text''), (''text'', JBool True)]])
   \<and> texts_convert example_runtime
       (JArr [JObj [(''type'', JStr ''text''), (''text'', JStr ''Be terse'')],
              JObj [(''type'', JStr ''image'')],
              JObj [(''type'', JStr ''text''), (''text'', JBool True)]])
   \<and> injectSystemPrompt example_runtime
       (JObj [(''system'',
               JArr [JObj [(''type'', JStr ''text''), (''text'', JStr ''Be terse'')],
                     JObj [(''type'', JStr ''image'')],
                     JObj [(''type'', JStr ''text''), (''text'', JBool True)]]),
              (''messages'', JArr [JObj [(''role'', JStr ''user''), (''content'', JStr ''hello'')]])])
     = Inr (JObj [(''system'', CLAUDE_CODE_SYSTEM),
                  (''messages'',
                   JArr [JObj [(''role'', JStr ''user''),
                               (''content'',
                                JStr (system_prefix (''Be terse'' @ nl @ nl @ ''true'')
                                      @ ''hello''))]])])"
  using injectSystemPrompt_two_segments
          [of example_runtime
              "[(''system'',
                 JArr [JObj [(''type'', JStr ''text''), (''text'', JStr ''Be terse'')],
                       JObj [(''type'', JStr ''image'')],
                       JObj [(''type'', JStr ''text''), (''text'', JBool True)]]),
                (''messages'', JArr [JObj [(''role'', JStr ''user''), (''content'', JStr ''hello'')]])]"]
  by (simp add: elements_present_def texts_convert_def nullish_def injectSystemPrompt_def
      clientSystem_def isTextSegment_def js_string_def example_runtime_def relocate_def)

text \<open>
  C5, as stated: whenever \<^verbatim>\<open>thinking\<close> is absent and the model identifier contains
  \<^verbatim>\<open>claude-3-7-sonnet\<close>, the injected mode is "enabled" with budget 10000. It fails for
  an identifier that also contains a pattern of \<^verbatim>\<open>CLAUDE_46_PATTERNS\<close>, which
  \<^verbatim>\<open>injectThinking\<close> tests first: the mode is then "adaptive" and \<^verbatim>\<open>max_tokens\<close> is
  not touched.
\<close>

theorem injectThinking_adaptive_first:
  "get_prop (JObj [(''model'', JStr ''claude-opus-4+claude-3-7-sonnet'')]) ''thinking'' = JUndefined
   \<and> js_includes (toLowerCase ''claude-opus-4+claude-3-7-sonnet'') ''claude-3-7-sonnet''
   \<and> injectThinking example_runtime (JObj [(''model'', JStr ''claude-opus-4+claude-3-7-sonnet'')])
       = Inr (JObj [(''model'', JStr ''claude-opus-4+claude-3-7-sonnet''),
                    (''thinking'', JObj [(''type'', JStr ''adaptive'')])])"
  by (simp add: injectThinking_def nullish_def isClaude46Model_def CLAUDE_46_PATTERNS_def
      toLowerCase_def toLowerCase_char_def ascii_lower_def ascii_upper_def)

text \<open>
  C5, amended. For every request whose \<^verbatim>\<open>thinking\<close> is absent, whose model identifier
  contains \<^verbatim>\<open>claude-3-7-sonnet\<close> in any letter case and matches no pattern of
  \<^verbatim>\<open>CLAUDE_46_PATTERNS\<close>, and whose \<^verbatim>\<open>max_tokens\<close> is absent or a number:
  \<^verbatim>\<open>injectThinking\<close> returns the body with \<^verbatim>\<open>thinking\<close> set to the enabled mode with
  budget 10000, with \<^verbatim>\<open>max_tokens\<close> set to 14096 when it was absent or below 14096 and
  kept otherwise, and with every other property as it was. A request that has a
  \<^verbatim>\<open>thinking\<close> property is returned unchanged.
\<close>

theorem injectThinking_sonnet_37:
  "(get_prop (JObj kvs) ''thinking'' = JUndefined
      \<and> get_prop (JObj kvs) ''model'' = JStr m
      \<and> js_includes (toLowerCase m) ''claude-3-7-sonnet''
      \<and> \<not> isClaude46Model m
      \<and> (get_prop (JObj kvs) ''max_tokens'' = JUndefined
           \<or> get_prop (JObj kvs) ''max_tokens'' = JNum x)
    \<longrightarrow> (\<exists>out. injectThinking rt (JObj kvs) = Inr out
          \<and> get_prop out ''thinking''
              = JObj [(''type'', JStr ''enabled''), (''budget_tokens'', JNum 10000)]
          \<and> get_prop out ''max_tokens''
              = (if get_prop (JObj kvs) ''max_tokens'' = JUndefined \<or> x < 14096
                 then JNum 14096 else JNum x)
          \<and> (\<forall>k. k \<noteq> ''thinking'' \<and> k \<noteq> ''max_tokens''
                 \<longrightarrow> get_prop out k = get_prop (JObj kvs) k)))
   \<and> (get_prop (JObj kvs) ''thinking'' \<noteq> JUndefined
        \<longrightarrow> injectThinking rt (JObj kvs) = Inr (JObj kvs))"
proof (intro conjI impI)
  assume a: "get_prop (JObj kvs) ''thinking'' = JUndefined
      \<and> get_prop (JObj kvs) ''model'' = JStr m
      \<and> js_includes (toLowerCase m) ''claude-3-7-sonnet''
      \<and> \<not> isClaude46Model m
      \<and> (get_prop (JObj kvs) ''max_tokens'' = JUndefined
           \<or> get_prop (JObj kvs) ''max_tokens'' = JNum x)"
  then have eq: "injectThinking rt (JObj kvs) =
           Inr (let body' = set_prop (JObj kvs) ''thinking''
                              (JObj [(''type'', JStr ''enabled''), (''budget_tokens'', JNum 10000)])
                in if get_prop (JObj kvs) ''max_tokens'' = JUndefined \<or> x < 14096
                   then set_prop body' ''max_tokens'' (JNum 14096) else body')"
    by (intro injectThinking_enabled) blast+
  from a consider "get_prop (JObj kvs) ''max_tokens'' = JUndefined"
    | "get_prop (JObj kvs) ''max_tokens'' = JNum x" by blast
  then show "\<exists>out. injectThinking rt (JObj kvs) = Inr out
          \<and> get_prop out ''thinking''
              = JObj [(''type'', JStr ''enabled''), (''budget_tokens'', JNum 10000)]
          \<and> get_prop out ''max_tokens''
              = (if get_prop (JObj kvs) ''max_tokens'' = JUndefined \<or> x < 14096
                 then JNum 14096 else JNum x)
          \<and> (\<forall>k. k \<noteq> ''thinking'' \<and> k \<noteq> ''max_tokens''
                 \<longrightarrow> get_prop out k = get_prop (JObj kvs) k)"
  proof cases
    case 1
    then show ?thesis
      unfolding eq by (simp add: Let_def map_of_set_entry)
  next
    case 2
    then show ?thesis
      unfolding eq by (auto simp: Let_def map_of_set_entry)
  qed
next
  assume "get_prop (JObj kvs) ''thinking'' \<noteq> JUndefined"
  then show "injectThinking rt (JObj kvs) = Inr (JObj kvs)"
    by (intro injectThinking_present) (simp_all add: nullish_def)
qed

theorem injectThinking_sonnet_37_witness:
  "get_prop BE_TERSE ''thinking'' = JUndefined
   \<and> js_includes (toLowerCase ''claude-3-7-sonnet-20250219'') ''claude-3-7-sonnet''
   \<and> \<not> isClaude46Model ''claude-3-7-sonnet-20250219''
   \<and> injectThinking example_runtime BE_TERSE =
       Inr (JObj [(''model'', JStr ''claude-3-7-sonnet-20250219''),
                  (''system'', JStr ''Be terse''),
                  (''messages'', JArr [JObj [(''role'', JStr ''user''), (''content'', JStr ''hello'')]]),
                  (''thinking'', JObj [(''type'', JStr ''enabled''), (''budget_tokens'', JNum 10000)]),
                  (''max_tokens'', JNum 14096)])"
  using injectThinking_sonnet_37
          [of "[(''model'', JStr ''claude-3-7-sonnet-20250219''),
                (''system'', JStr ''Be terse''),
                (''messages'', JArr [JObj [(''role'', JStr ''user''), (''content'', JStr ''hello'')]])]"
              "''claude-3-7-sonnet-20250219''" 0 example_runtime]
        sonnet_37_dated
  by (simp add: BE_TERSE_def injectThinking_def nullish_def DEFAULT_THINKING_BUDGET_def)

text \<open>
  C6. Let the captured client system text be non-empty and \<^verbatim>\<open>messages\<close> be an array.
  If the message at index \<open>i\<close> has role "user" and no earlier message has (the
  earlier ones being values with properties, not \<^verbatim>\<open>null\<close>), \<^verbatim>\<open>injectSystemPrompt\<close>
  returns a body whose message list differs from the given one at index \<open>i\<close> only, where
  the message is relocated: string content has the delimited block prepended, array content
  gets a new first text segment holding the block, and no other property of the message
  changes. If no message has role "user", the message list is returned as it was.
\<close>

theorem injectSystemPrompt_relocates:
  assumes "clientSystem rt (get_prop (JObj kvs) ''system'') = Inr (Some text)"
    and "text \<noteq> []"
    and "get_prop (JObj kvs) ''messages'' = JArr messages"
  shows "(i < length messages
          \<and> get_prop (messages ! i) ''role'' = JStr ''user''
          \<and> (\<forall>j<i. \<not> nullish (messages ! j) \<and> get_prop (messages ! j) ''role'' \<noteq> JStr ''user'')
          \<longrightarrow> (\<exists>out. injectSystemPrompt rt (JObj kvs) = Inr out
                \<and> get_prop out ''messages'' = JArr (messages[i := relocate text (messages ! i)]))
              \<and> (\<forall>c. get_prop (messages ! i) ''content'' = JStr c
                     \<longrightarrow> get_prop (relocate text (messages ! i)) ''content''
                         = JStr (''[System Instructions]'' @ nl @ text @ nl
                                 @ ''[End System Instructions]'' @ nl @ nl @ c))
              \<and> (\<forall>blocks. get_prop (messages ! i) ''content'' = JArr blocks
                     \<longrightarrow> get_prop (relocate text (messages ! i)) ''content''
                         = JArr (JObj [(''type'', JStr ''text''),
                                       (''text'', JStr (''[System Instructions]'' @ nl @ text @ nl
                                                        @ ''[End System Instructions]'' @ nl @ nl))]
                                 # blocks))
              \<and> (\<forall>k. k \<noteq> ''content''
                     \<longrightarrow> get_prop (relocate text (messages ! i)) k = get_prop (messages ! i) k))
         \<and> ((\<forall>m\<in>set messages. \<not> nullish m \<and> get_prop m ''role'' \<noteq> JStr ''user'')
              \<longrightarrow> (\<exists>out. injectSystemPrompt rt (JObj kvs) = Inr out
                    \<and> get_prop out ''messages'' = JArr messages))"
proof (intro conjI impI)
  assume first: "i < length messages
          \<and> get_prop (messages ! i) ''role'' = JStr ''user''
          \<and> (\<forall>j<i. \<not> nullish (messages ! j) \<and> get_prop (messages ! j) ''role'' \<noteq> JStr ''user'')"
  then have "findIndex_user messages = Inr (Some i)"
    by (intro findIndex_user_first) blast+
  then show "\<exists>out. injectSystemPrompt rt (JObj kvs) = Inr out
                \<and> get_prop out ''messages'' = JArr (messages[i := relocate text (messages ! i)])"
    using injectSystemPrompt_captured[OF assms, of "Some i"] by simp
next
  show "\<forall>c. get_prop (messages ! i) ''content'' = JStr c
                     \<longrightarrow> get_prop (relocate text (messages ! i)) ''content''
                         = JStr (''[System Instructions]'' @ nl @ text @ nl
                                 @ ''[End System Instructions]'' @ nl @ nl @ c)"
    using relocate_string[of "messages ! i" _ "text"] by (simp add: system_prefix_def)
next
  show "\<forall>blocks. get_prop (messages ! i) ''content'' = JArr blocks
                     \<longrightarrow> get_prop (relocate text (messages ! i)) ''content''
                         = JArr (JObj [(''type'', JStr ''text''),
                                       (''text'', JStr (''[System Instructions]'' @ nl @ text @ nl
                                                        @ ''[End System Instructions]'' @ nl @ nl))]
                                 # blocks)"
    using relocate_blocks[of "messages ! i" _ "text"] by (simp add: system_prefix_def)
next
  show "\<forall>k. k \<noteq> ''content''
                     \<longrightarrow> get_prop (relocate text (messages ! i)) k = get_prop (messages ! i) k"
    using relocate_other by blast
next
  assume "\<forall>m\<in>set messages. \<not> nullish m \<and> get_prop m ''role'' \<noteq> JStr ''user''"
  then have "findIndex_user messages = Inr None"
    by (rule findIndex_user_none)
  then show "\<exists>out. injectSystemPrompt rt (JObj kvs) = Inr out
                    \<and> get_prop out ''messages'' = JArr messages"
    using injectSystemPrompt_captured[OF assms, of None] by simp
qed

theorem injectSystemPrompt_relocates_witness:
  "clientSystem example_runtime
     (get_prop (JObj [(''system'', JArr [JObj [(''type'', JStr ''text''), (''text'', JStr ''Be terse'')]]),
                      (''messages'',
                       JArr [JObj [(''role'', JStr ''assistant''), (''content'', JStr ''hi'')],
                             JObj [(''role'', JStr ''user''),
                                   (''content'', JArr [JObj [(''type'', JStr ''text''),
                                                             (''text'', JStr ''hello'')]])]])])
        ''system'')
     = Inr (Some ''Be terse'')
   \<and> injectSystemPrompt example_runtime
       (JObj [(''system'', JArr [JObj [(''type'', JStr ''text''), (''text'', JStr ''Be terse'')]]),
              (''messages'',
               JArr [JObj [(''role'', JStr ''assistant''), (''content'', JStr ''hi'')],
                     JObj [(''role'', JStr ''user''),
                           (''content'', JArr [JObj [(''type'', JStr ''text''),
                                                     (''text'', JStr ''hello'')]])]])])
     = Inr (JObj [(''system'', CLAUDE_CODE_SYSTEM),
                  (''messages'',
                   JArr [JObj [(''role'', JStr ''assistant''), (''content'', JStr ''hi'')],
                         JObj [(''role'', JStr ''user''),
                               (''content'',
                                JArr [JObj [(''type'', JStr ''text''),
                                            (''text'', JStr (system_prefix ''Be terse''))],
                                      JObj [(''type'', JStr ''text''),
                                            (''text'', JStr ''hello'')]])]])])"
  using injectSystemPrompt_relocates
          [of example_runtime
              "[(''system'', JArr [JObj [(''type'', JStr ''text''), (''text'', JStr ''Be terse'')]]),
                (''messages'',
                 JArr [JObj [(''role'', JStr ''assistant''), (''content'', JStr ''hi'')],
                       JObj [(''role'', JStr ''user''),
                             (''content'', JArr [JObj [(''type'', JStr ''text''),
                                                       (''text'', JStr ''hello'')]])]])]"
              "''Be terse''"
              "[JObj [(''role'', JStr ''assistant''), (''content'', JStr ''hi'')],
                JObj [(''role'', JStr ''user''),
                      (''content'', JArr [JObj [(''type'', JStr ''text''),
                                                (''text'', JStr ''hello'')]])]]"
              1]
  by (simp add: injectSystemPrompt_def clientSystem_def isTextSegment_def nullish_def
      js_string_def relocate_def)

section \<open>The request path: results\<close>

lemma map_of_filter_snd:
  "distinct (map fst kvs) \<Longrightarrow>
   map_of (filter (\<lambda>e. Q (snd e)) kvs) k
   = (case map_of kvs k of Some v \<Rightarrow> if Q v then Some v else None | None \<Rightarrow> None)"
proof (induction kvs)
  case Nil
  then show ?case by simp
next
  case (Cons e kvs)
  then show ?case
    by (cases e) (auto split: option.splits simp: map_of_eq_None_iff image_iff)
qed

lemma map_of_map_snd:
  "map_of (map (\<lambda>e. (fst e, f (snd e))) kvs) k = map_option f (map_of kvs k)"
  by (induction kvs) auto

lemma get_prop_sanitize:
  assumes "distinct (map fst kvs)"
  shows "get_prop (sanitize (JObj kvs)) k
         = (case map_of kvs k of
              Some v \<Rightarrow> if v = sentinel then JUndefined else sanitize v
            | None \<Rightarrow> JUndefined)"
  using map_of_filter_snd[OF assms, of "\<lambda>v. v \<noteq> sentinel" k]
  by (simp add: map_of_map_snd split: option.splits)

lemma wf_value_prop:
  assumes "wf_value (JObj kvs)" "map_of kvs k = Some v"
  shows "wf_value v"
  using assms by (auto simp: list_all_iff dest!: map_of_SomeD)

lemma forEach_Inr:
  "forEach f xs = Inr ys \<Longrightarrow> length ys = length xs \<and> (\<forall>i<length xs. f (xs ! i) = Inr (ys ! i))"
proof (induction xs arbitrary: ys)
  case Nil
  then show ?case by simp
next
  case (Cons x xs)
  then obtain y ys' where y: "f x = Inr y" "forEach f xs = Inr ys'" "ys = y # ys'"
    by (auto split: sum.splits)
  then have "length ys' = length xs \<and> (\<forall>i<length xs. f (xs ! i) = Inr (ys' ! i))"
    using Cons.IH by simp
  then show ?case
    using y by (auto simp: nth_Cons split: nat.splits)
qed

lemma transformTool_builtin:
  "isBuiltinTool t = Inr True \<Longrightarrow> transformTool rt t = Inr t"
  by (simp add: transformTool_def)

lemma transformMessages_other:
  "k \<noteq> ''messages'' \<Longrightarrow> get_prop (transformMessages rt b) k = get_prop b k"
  by (cases b) (auto simp: transformMessages_def map_of_set_entry split: jsvalue.splits option.splits)

lemma transformRequestBody_tools:
  assumes "transformRequestBody rt b = Inr out" "get_prop b ''tools'' = JArr ts"
  shows "\<exists>ts'. forEach (transformTool rt) ts = Inr ts' \<and> get_prop out ''tools'' = JArr ts'"
proof -
  obtain kvs where b: "b = JObj kvs"
    using assms(2) get_prop_not_undefined_obj[of b "''tools''"] by auto
  then obtain ts' where ts': "forEach (transformTool rt) ts = Inr ts'"
    and out: "out = transformMessages rt (set_prop b ''tools'' (JArr ts'))"
    using assms by (auto simp: transformRequestBody_def transformTools_def split: sum.splits)
  show ?thesis
    using ts' out b by (simp add: transformMessages_other map_of_set_entry)
qed

lemma injectSystemPrompt_other:
  assumes "injectSystemPrompt rt b = Inr out" "k \<noteq> ''system''" "k \<noteq> ''messages''"
  shows "get_prop out k = get_prop b k"
  using assms unfolding injectSystemPrompt_def
  by (auto simp: Let_def map_of_set_entry split: sum.splits option.splits if_splits jsvalue.splits)

lemma injectThinking_other:
  assumes "injectThinking rt b = Inr out" "k \<noteq> ''thinking''" "k \<noteq> ''max_tokens''"
  shows "get_prop out k = get_prop b k"
proof (cases b)
  case (JObj kvs)
  then show ?thesis
    using assms unfolding injectThinking_def
    by (auto simp: Let_def map_of_set_entry split: if_splits jsvalue.splits option.splits sum.splits)
next
qed (use assms in \<open>auto simp: injectThinking_def Let_def nullish_def split: if_splits jsvalue.splits sum.splits\<close>)

lemma isBuiltinTool_True:
  assumes "isBuiltinTool t = Inr True"
  shows "\<exists>kvs ty. t = JObj kvs \<and> map_of kvs ''type'' = Some (JStr ty)
           \<and> list_ex (\<lambda>p. prefix p ty) BUILTIN_TOOL_TYPES"
proof -
  have "get_prop t ''type'' \<noteq> JUndefined"
    using assms by (auto simp: isBuiltinTool_def split: if_splits)
  then obtain kvs where t: "t = JObj kvs"
    using get_prop_not_undefined_obj by blast
  then show ?thesis
    using assms
    by (auto simp: isBuiltinTool_def split: if_splits jsvalue.splits option.splits)
qed

lemma builtin_type_not_sentinel:
  "list_ex (\<lambda>p. prefix p ty) BUILTIN_TOOL_TYPES \<Longrightarrow> JStr ty \<noteq> sentinel"
  by (auto simp: BUILTIN_TOOL_TYPES_def sentinel_def)

lemma isBuiltinTool_sanitize:
  assumes "isBuiltinTool t = Inr True" "wf_value t"
  shows "isBuiltinTool (sanitize t) = Inr True"
proof -
  obtain kvs ty where t: "t = JObj kvs" "map_of kvs ''type'' = Some (JStr ty)"
    "list_ex (\<lambda>p. prefix p ty) BUILTIN_TOOL_TYPES"
    using isBuiltinTool_True[OF assms(1)] by blast
  have d: "distinct (map fst kvs)"
    using assms(2) t(1) by simp
  have "get_prop (sanitize t) ''type'' = JStr ty"
    using t builtin_type_not_sentinel[OF t(3)] get_prop_sanitize[OF d, of "''type''"]
    by simp
  moreover have "ty \<noteq> []"
    using t(3) by (auto simp: BUILTIN_TOOL_TYPES_def)
  ultimately show ?thesis
    using t(3) by (simp add: isBuiltinTool_def nullish_def t(1))
qed

lemma name_sanitize:
  assumes "wf_value t" "\<not> contains_sentinel (get_prop t ''name'')"
  shows "get_prop (sanitize t) ''name'' = get_prop t ''name''"
proof (cases t)
  case (JObj kvs)
  have d: "distinct (map fst kvs)"
    using assms(1) JObj by simp
  show ?thesis
  proof (cases "map_of kvs ''name''")
    case None
    then show ?thesis
      using JObj get_prop_sanitize[OF d, of "''name''"] by simp
  next
    case (Some v)
    then have "\<not> contains_sentinel v"
      using assms(2) JObj by simp
    then have "v \<noteq> sentinel" "sanitize v = v"
      using contains_sentinel_self sanitize_sentinel_free by auto
    then show ?thesis
      using JObj Some get_prop_sanitize[OF d, of "''name''"] by simp
  qed
qed simp_all

lemma transformRequest_tools:
  assumes "wf_value parsed" "get_prop parsed ''tools'' = JArr tools"
    and "transformRequest rt parsed = Inr out"
  shows "\<exists>tools'. forEach (transformTool rt) (map sanitize (filter (\<lambda>t. t \<noteq> sentinel) tools)) = Inr tools'
           \<and> get_prop out ''tools'' = JArr tools'"
proof -
  obtain kvs where p: "parsed = JObj kvs"
    using assms(2) get_prop_not_undefined_obj[of parsed "''tools''"] by auto
  have d: "distinct (map fst kvs)"
    using assms(1) p by simp
  have m: "map_of kvs ''tools'' = Some (JArr tools)"
    using assms(2) p by (auto split: option.splits)
  have cleaned: "get_prop (cleanUndefined parsed) ''tools''
                 = JArr (map sanitize (filter (\<lambda>t. t \<noteq> sentinel) tools))"
    using cleanUndefined_sanitize[OF assms(1)] get_prop_sanitize[OF d, of "''tools''"] p m
    by (simp add: sentinel_def)
  obtain transformed injected where
    t: "transformRequestBody rt (cleanUndefined parsed) = Inr transformed"
    and i: "injectSystemPrompt rt transformed = Inr injected"
    and w: "injectThinking rt injected = Inr out"
    using assms(3) by (auto simp: transformRequest_def bind_err_def Let_def split: sum.splits)
  obtain tools' where
    tools': "forEach (transformTool rt) (map sanitize (filter (\<lambda>t. t \<noteq> sentinel) tools)) = Inr tools'"
    "get_prop transformed ''tools'' = JArr tools'"
    using transformRequestBody_tools[OF t cleaned] by blast
  have "get_prop out ''tools'' = JArr tools'"
    using injectThinking_other[OF w, of "''tools''"] injectSystemPrompt_other[OF i, of "''tools''"]
      tools'(2) by simp
  then show ?thesis
    using tools'(1) by blast
qed

text \<open>
  The request of section 8 of the specification through the whole request path, for every
  runtime: the two canonical segments, the enabled thinking mode with \<^verbatim>\<open>max_tokens\<close>
  14096, and the client's system text in front of the user's message.
\<close>

lemma transformRequest_BE_TERSE:
  "transformRequest rt BE_TERSE =
     Inr (JObj [(''model'', JStr ''claude-3-7-sonnet-20250219''),
                (''system'', CLAUDE_CODE_SYSTEM),
                (''messages'',
                 JArr [JObj [(''role'', JStr ''user''),
                             (''content'',
                              JStr (''[System Instructions]'' @ nl @ ''Be terse'' @ nl
                                    @ ''[End System Instructions]'' @ nl @ nl @ ''hello''))]]),
                (''thinking'', JObj [(''type'', JStr ''enabled''), (''budget_tokens'', JNum 10000)]),
                (''max_tokens'', JNum 14096)])"
  using sonnet_37_dated
  by (simp add: transformRequest_def bind_err_def assign_fresh_def BE_TERSE_def sentinel_def
      transformRequestBody_def transformTools_def transformMessages_def transformMessage_def
      nullish_def injectSystemPrompt_def clientSystem_def relocate_def system_prefix_def
      injectThinking_def DEFAULT_THINKING_BUDGET_def)

text \<open>
  C4, as stated: after the request path (\<^verbatim>\<open>cleanUndefined\<close>, \<^verbatim>\<open>transformRequestBody\<close>,
  \<^verbatim>\<open>injectSystemPrompt\<close>, \<^verbatim>\<open>injectThinking\<close>) the \<^verbatim>\<open>name\<close> of every tool
  descriptor with a builtin \<^verbatim>\<open>type\<close> is what it was. It fails for a builtin descriptor
  whose name is the sentinel string: \<^verbatim>\<open>cleanUndefined\<close> removes that property.
\<close>

theorem builtin_tool_name_sentinel:
  "isBuiltinTool (JObj [(''type'', JStr ''bash_20250124''), (''name'', JStr ''[undefined]'')]) = Inr True
   \<and> transformRequest example_runtime
       (JObj [(''tools'', JArr [JObj [(''type'', JStr ''bash_20250124''),
                                     (''name'', JStr ''[undefined]'')]])])
     = Inr (JObj [(''tools'', JArr [JObj [(''type'', JStr ''bash_20250124'')]]),
                  (''system'', CLAUDE_CODE_SYSTEM)])"
  by (simp add: transformRequest_def bind_err_def assign_fresh_def transformRequestBody_def transformTools_def
      transformTool_def isBuiltinTool_def nullish_def BUILTIN_TOOL_TYPES_def sentinel_def
      transformMessages_def injectSystemPrompt_def clientSystem_def injectThinking_def)

text \<open>
  C4, amended. Let the parsed request be a value tree whose objects have pairwise different
  keys, none of them \<^verbatim>\<open>__proto__\<close>, and let its \<^verbatim>\<open>tools\<close> be an array. When the
  request path returns, the \<^verbatim>\<open>tools\<close> of the result are an array with one entry for
  each entry of the given array that is not the sentinel string, in the same order, and
  every entry whose \<^verbatim>\<open>type\<close> is a string starting with a builtin prefix, and whose
  \<^verbatim>\<open>name\<close> neither is nor contains the sentinel, has the \<^verbatim>\<open>name\<close> it had, whatever
  its letter case.
\<close>

theorem builtin_tool_names_kept:
  assumes "wf_value parsed"
    and "get_prop parsed ''tools'' = JArr tools"
    and "transformRequest rt parsed = Inr out"
  shows "\<exists>tools'. get_prop out ''tools'' = JArr tools'
           \<and> length tools' = length (filter (\<lambda>t. t \<noteq> sentinel) tools)
           \<and> (\<forall>i<length tools'.
                  isBuiltinTool (filter (\<lambda>t. t \<noteq> sentinel) tools ! i) = Inr True
                  \<and> \<not> contains_sentinel (get_prop (filter (\<lambda>t. t \<noteq> sentinel) tools ! i) ''name'')
                  \<longrightarrow> get_prop (tools' ! i) ''name''
                      = get_prop (filter (\<lambda>t. t \<noteq> sentinel) tools ! i) ''name'')"
proof -
  define kept where "kept = filter (\<lambda>t. t \<noteq> sentinel) tools"
  obtain tools' where run: "forEach (transformTool rt) (map sanitize kept) = Inr tools'"
    and out: "get_prop out ''tools'' = JArr tools'"
    using transformRequest_tools[OF assms] unfolding kept_def by blast
  have len: "length tools' = length kept"
    and each: "\<And>i. i < length kept \<Longrightarrow> transformTool rt (sanitize (kept ! i)) = Inr (tools' ! i)"
    using forEach_Inr[OF run] by auto
  obtain kvs where p: "parsed = JObj kvs"
    using assms(2) get_prop_not_undefined_obj[of parsed "''tools''"] by auto
  have "wf_value (JArr tools)"
    using assms(1,2) p wf_value_prop[of kvs "''tools''" "JArr tools"]
    by (auto split: option.splits)
  then have wf: "\<And>i. i < length kept \<Longrightarrow> wf_value (kept ! i)"
    unfolding kept_def by (auto simp: list_all_iff dest!: nth_mem)
  have "get_prop (tools' ! i) ''name'' = get_prop (kept ! i) ''name''"
    if "i < length tools'" "isBuiltinTool (kept ! i) = Inr True"
      "\<not> contains_sentinel (get_prop (kept ! i) ''name'')" for i
  proof -
    have i: "i < length kept"
      using that(1) len by simp
    have "transformTool rt (sanitize (kept ! i)) = Inr (sanitize (kept ! i))"
      using isBuiltinTool_sanitize[OF that(2) wf[OF i]] by (rule transformTool_builtin)
    then have "tools' ! i = sanitize (kept ! i)"
      using each[OF i] by simp
    then show ?thesis
      using name_sanitize[OF wf[OF i] that(3)] by simp
  qed
  then show ?thesis
    using out len unfolding kept_def by blast
qed

theorem builtin_tool_names_kept_witness:
  "wf_value (JObj [(''tools'', JArr [JStr ''[undefined]'',
                                     JObj [(''type'', JStr ''bash_20250124''), (''name'', JStr ''bash'')],
                                     JObj [(''name'', JStr ''todowrite'')]])])
   \<and> transformRequest example_runtime
       (JObj [(''tools'', JArr [JStr ''[undefined]'',
                               JObj [(''type'', JStr ''bash_20250124''), (''name'', JStr ''bash'')],
                               JObj [(''name'', JStr ''todowrite'')]])])
     = Inr (JObj [(''tools'', JArr [JObj [(''type'', JStr ''bash_20250124''), (''name'', JStr ''bash'')],
                                    JObj [(''name'', JStr ''TodoWrite'')]]),
                  (''system'', CLAUDE_CODE_SYSTEM)])
   \<and> isBuiltinTool (JObj [(''type'', JStr ''bash_20250124''), (''name'', JStr ''bash'')]) = Inr True"
  using builtin_tool_names_kept
          [of "JObj [(''tools'', JArr [JStr ''[undefined]'',
                                       JObj [(''type'', JStr ''bash_20250124''), (''name'', JStr ''bash'')],
                                       JObj [(''name'', JStr ''todowrite'')]])]"
              "[JStr ''[undefined]'',
                JObj [(''type'', JStr ''bash_20250124''), (''name'', JStr ''bash'')],
                JObj [(''name'', JStr ''todowrite'')]]"
              example_runtime
              "JObj [(''tools'', JArr [JObj [(''type'', JStr ''bash_20250124''), (''name'', JStr ''bash'')],
                                       JObj [(''name'', JStr ''TodoWrite'')]]),
                     (''system'', CLAUDE_CODE_SYSTEM)]"]
  by (simp add: transformRequest_def bind_err_def assign_fresh_def transformRequestBody_def transformTools_def
      transformTool_def isBuiltinTool_def nullish_def nullish_or_def rename_def
      BUILTIN_TOOL_TYPES_def sentinel_def
      NAME_MAP_at_def NAME_MAP_def Object_prototype_names_def
      transformMessages_def injectSystemPrompt_def clientSystem_def injectThinking_def)

section \<open>Response body: results\<close>

lemma map_of_distinct_mem:
  "distinct (map fst cur) \<Longrightarrow> e \<in> set cur \<Longrightarrow> map_of cur (fst e) = Some (snd e)"
  by (cases e) simp

lemma set_entry_present:
  assumes "distinct (map fst cur)" "map_of cur k = Some v0"
  shows "set_entry k v cur = map (\<lambda>e. (fst e, if fst e = k then v else snd e)) cur"
  using assms
proof (induction cur)
  case Nil
  then show ?case by simp
next
  case (Cons e cur)
  show ?case
  proof (cases "fst e = k")
    case True
    have "k \<notin> fst ` set cur"
      using Cons.prems(1) True by auto
    then have "map (\<lambda>e. (fst e, if fst e = k then v else snd e)) cur = cur"
      by (intro map_idI) (auto simp: image_iff)
    then show ?thesis
      using True by simp
  next
    case False
    then have "map_of cur k = Some v0"
      using Cons.prems(2) by (cases e) (auto split: if_splits)
    then show ?thesis
      using False Cons.IH Cons.prems(1) by simp
  qed
qed

lemma repaired_alt:
  "repaired rt v = (case stringified v of None \<Rightarrow> v
                    | Some s \<Rightarrow> (case JSON_parse rt s of Some parsed \<Rightarrow> parsed | None \<Rightarrow> v))"
  by (cases v) (auto simp: repaired_def stringified_def)

lemma repairKey_step:
  assumes "distinct (map fst cur)" "map_of cur k = Some v0"
  shows "repairKey rt k (JObj cur)
         = JObj (map (\<lambda>e. (fst e, if fst e = k then repaired rt (snd e) else snd e)) cur)"
proof -
  have at_k: "\<And>e. e \<in> set cur \<Longrightarrow> fst e = k \<Longrightarrow> snd e = v0"
    using map_of_distinct_mem[OF assms(1)] assms(2) by auto
  have rhs: "map (\<lambda>e. (fst e, if fst e = k then repaired rt (snd e) else snd e)) cur
             = map (\<lambda>e. (fst e, if fst e = k then repaired rt v0 else snd e)) cur"
    using at_k by (auto intro!: map_cong)
  have "repairKey rt k (JObj cur) = JObj (set_entry k (repaired rt v0) cur)"
  proof -
    have "set_entry k v0 cur = cur"
      using set_entry_present[OF assms, of v0] at_k
      by (auto intro!: map_idI)
    then show ?thesis
      using assms(2) by (auto simp: repairKey_def repaired_alt split: option.splits)
  qed
  then show ?thesis
    unfolding rhs using set_entry_present[OF assms, of "repaired rt v0"] by simp
qed

lemma repair_loop:
  assumes "distinct (map fst cur)" "distinct ks" "set ks \<subseteq> fst ` set cur"
  shows "fold (repairKey rt) ks (JObj cur)
         = JObj (map (\<lambda>e. (fst e, if fst e \<in> set ks then repaired rt (snd e) else snd e)) cur)"
  using assms
proof (induction ks arbitrary: cur)
  case Nil
  then show ?case by simp
next
  case (Cons k ks)
  let ?cur1 = "map (\<lambda>e. (fst e, if fst e = k then repaired rt (snd e) else snd e)) cur"
  obtain v0 where v0: "map_of cur k = Some v0"
    using Cons.prems(3) by (cases "map_of cur k") (auto simp: map_of_eq_None_iff)
  have keys: "map fst ?cur1 = map fst cur"
    by simp
  have step: "repairKey rt k (JObj cur) = JObj ?cur1"
    using repairKey_step[OF Cons.prems(1) v0] .
  have "fold (repairKey rt) ks (JObj ?cur1)
        = JObj (map (\<lambda>e. (fst e, if fst e \<in> set ks then repaired rt (snd e) else snd e)) ?cur1)"
  proof (rule Cons.IH)
    show "distinct (map fst ?cur1)"
      unfolding keys by (rule Cons.prems(1))
    show "distinct ks"
      using Cons.prems(2) by simp
    have "fst ` set ?cur1 = fst ` set cur"
      using keys by (metis list.set_map)
    then show "set ks \<subseteq> fst ` set ?cur1"
      using Cons.prems(3) by simp
  qed
  moreover have "map (\<lambda>e. (fst e, if fst e \<in> set ks then repaired rt (snd e) else snd e)) ?cur1
        = map (\<lambda>e. (fst e, if fst e \<in> set (k # ks) then repaired rt (snd e) else snd e)) cur"
    using Cons.prems(2) by auto
  ultimately show ?case
    using step by simp
qed

lemma repairInput_object:
  assumes "distinct (map fst kvs)"
  shows "repairInput rt (JObj kvs) = JObj (map (\<lambda>e. (fst e, repaired rt (snd e))) kvs)"
proof -
  have "fold (repairKey rt) (map fst kvs) (JObj kvs)
        = JObj (map (\<lambda>e. (fst e, if fst e \<in> set (map fst kvs) then repaired rt (snd e) else snd e)) kvs)"
    using assms by (intro repair_loop) auto
  then show ?thesis
    by (simp add: repairInput_def)
qed

lemma repair_indices:
  "n \<le> length xs \<Longrightarrow>
   fold (repairIndex rt) [0..<n] xs = map (repaired rt) (take n xs) @ drop n xs"
proof (induction n)
  case 0
  then show ?case by simp
next
  case (Suc n)
  then have n: "n < length xs" by simp
  let ?ys = "map (repaired rt) (take n xs) @ drop n xs"
  have len: "length (map (repaired rt) (take n xs)) = n"
    using n by simp
  have at: "?ys ! n = xs ! n"
    using n by (simp add: nth_append)
  have dr: "drop n xs = xs ! n # drop (Suc n) xs"
    using n by (simp add: Cons_nth_drop_Suc)
  have upd: "\<And>v. ?ys[n := v] = map (repaired rt) (take n xs) @ v # drop (Suc n) xs"
    using len dr by (simp add: list_update_append)
  have "repairIndex rt n ?ys = map (repaired rt) (take n xs) @ repaired rt (xs ! n) # drop (Suc n) xs"
    using at upd dr by (auto simp: repairIndex_def repaired_alt split: option.splits)
  moreover have "fold (repairIndex rt) [0..<Suc n] xs = repairIndex rt n ?ys"
    using Suc by simp
  ultimately show ?case
    using n by (simp add: take_Suc_conv_app_nth)
qed

lemma repairInput_array:
  "repairInput rt (JArr xs) = JArr (map (repaired rt) xs)"
  using repair_indices[of "length xs" xs rt] by (simp add: repairInput_def)


lemma repairBlock_other:
  "get_prop block ''type'' \<noteq> JStr ''tool_use'' \<Longrightarrow> repairBlock rt block = block"
  by (simp add: repairBlock_def)

lemma repairBlock_object:
  assumes "get_prop block ''type'' = JStr ''tool_use''" "get_prop block ''input'' = JObj kvs"
    and "distinct (map fst kvs)"
  shows "get_prop (repairBlock rt block) ''input'' = JObj (map (\<lambda>e. (fst e, repaired rt (snd e))) kvs)"
proof -
  obtain bs where b: "block = JObj bs"
    using assms(1) get_prop_not_undefined_obj[of block "''type''"] by auto
  then show ?thesis
    using assms by (simp add: repairBlock_def nullish_def repairInput_object map_of_set_entry)
qed

lemma repairBlock_frame:
  assumes "k \<noteq> ''input''"
  shows "get_prop (repairBlock rt block) k = get_prop block k"
proof (cases block)
  case (JObj bs)
  then show ?thesis
    using assms by (simp add: repairBlock_def map_of_set_entry)
qed (simp_all add: repairBlock_def)

lemma transformResponseBody_content:
  assumes "get_prop body ''content'' = JArr blocks"
  shows "transformResponseBody rt body = set_prop body ''content'' (JArr (map (repairBlock rt) blocks))"
proof -
  obtain bs where b: "body = JObj bs"
    using assms get_prop_not_undefined_obj[of body "''content''"] by auto
  then show ?thesis
    using assms by (simp add: transformResponseBody_def)
qed

lemma wf_value_get_prop:
  assumes "wf_value v"
  shows "wf_value (get_prop v k)"
proof (cases v)
  case (JObj kvs)
  then show ?thesis
    using assms wf_value_prop[of kvs k] by (cases "map_of kvs k") auto
qed simp_all

text \<open>
  C7. For every response body whose \<^verbatim>\<open>content\<close> is an array (a value tree whose objects
  have pairwise different keys, none of them \<^verbatim>\<open>__proto__\<close>), \<^verbatim>\<open>transformResponseBody\<close>
  changes the \<^verbatim>\<open>content\<close> only, block by block: a block whose type is not
  \<^verbatim>\<open>tool_use\<close> is left as it is; in a \<^verbatim>\<open>tool_use\<close> block only \<^verbatim>\<open>input\<close> can
  change, and an object-valued input keeps its keys in their order with every value
  repaired. Repairing a value replaces a string that begins with \<^verbatim>\<open>[\<close> or \<^verbatim>\<open>{\<close> by
  its parse when \<^verbatim>\<open>JSON.parse\<close> returns, leaves the string when it throws, and leaves
  every other string and every value that is not a string as it is. The function is total:
  no input makes it raise.
\<close>

theorem transformResponseBody_repairs:
  assumes "wf_value body" "get_prop body ''content'' = JArr blocks"
  shows "get_prop (transformResponseBody rt body) ''content'' = JArr (map (repairBlock rt) blocks)
     \<and> (\<forall>k. k \<noteq> ''content'' \<longrightarrow> get_prop (transformResponseBody rt body) k = get_prop body k)
     \<and> (\<forall>block\<in>set blocks.
          (get_prop block ''type'' \<noteq> JStr ''tool_use'' \<longrightarrow> repairBlock rt block = block)
          \<and> (get_prop block ''type'' = JStr ''tool_use'' \<longrightarrow>
               (\<forall>kvs. get_prop block ''input'' = JObj kvs
                  \<longrightarrow> get_prop (repairBlock rt block) ''input''
                      = JObj (map (\<lambda>e. (fst e, repaired rt (snd e))) kvs)))
          \<and> (\<forall>k. k \<noteq> ''input'' \<longrightarrow> get_prop (repairBlock rt block) k = get_prop block k))
     \<and> (\<forall>s parsed. (prefix ''['' s \<or> prefix ''{'' s) \<and> JSON_parse rt s = Some parsed
            \<longrightarrow> repaired rt (JStr s) = parsed)
     \<and> (\<forall>s. JSON_parse rt s = None \<longrightarrow> repaired rt (JStr s) = JStr s)
     \<and> (\<forall>s. \<not> prefix ''['' s \<and> \<not> prefix ''{'' s \<longrightarrow> repaired rt (JStr s) = JStr s)
     \<and> (\<forall>v. (\<forall>s. v \<noteq> JStr s) \<longrightarrow> repaired rt v = v)"
proof (intro conjI ballI allI impI)
  obtain bs where b: "body = JObj bs"
    using assms(2) get_prop_not_undefined_obj[of body "''content''"] by auto
  show "get_prop (transformResponseBody rt body) ''content'' = JArr (map (repairBlock rt) blocks)"
    using transformResponseBody_content[OF assms(2)] b by (simp add: map_of_set_entry)
  show "get_prop (transformResponseBody rt body) k = get_prop body k" if "k \<noteq> ''content''" for k
    using transformResponseBody_content[OF assms(2)] b that by (simp add: map_of_set_entry)
next
  fix block kvs
  assume block: "block \<in> set blocks" and t: "get_prop block ''type'' = JStr ''tool_use''"
    and i: "get_prop block ''input'' = JObj kvs"
  have "wf_value (JArr blocks)"
    using wf_value_get_prop[OF assms(1), of "''content''"] assms(2) by simp
  then have "wf_value block"
    using block by (simp add: list_all_iff)
  then have "wf_value (JObj kvs)"
    using wf_value_get_prop[of block "''input''"] i by simp
  then have "distinct (map fst kvs)"
    by simp
  then show "get_prop (repairBlock rt block) ''input'' = JObj (map (\<lambda>e. (fst e, repaired rt (snd e))) kvs)"
    using repairBlock_object[OF t i] by simp
next
  fix v assume "\<forall>s. v \<noteq> JStr s"
  then show "repaired rt v = v"
    by (cases v) (simp_all add: repaired_def)
qed (auto simp: repairBlock_other repairBlock_frame repaired_def)

text \<open>
  The block of section 8 of the specification: the string \<^verbatim>\<open>"[1,2,3]"\<close> becomes the
  array of three numbers, next to a string that does not parse, a value that is an array
  already, a plain string, a number and a text block, all of which stay.
\<close>

theorem transformResponseBody_repairs_witness:
  "wf_value (JObj [(''content'',
       JArr [JObj [(''type'', JStr ''text''), (''text'', JStr ''[1,2,3]'')],
             JObj [(''type'', JStr ''tool_use''),
                   (''input'', JObj [(''args'', JStr ''[1,2,3]''), (''cut'', JStr ''[1,2''),
                                     (''done'', JArr [JNum 1, JNum 2, JNum 3]),
                                     (''plain'', JStr ''abc''), (''n'', JNum 5)])]])])
   \<and> transformResponseBody example_runtime
       (JObj [(''content'',
          JArr [JObj [(''type'', JStr ''text''), (''text'', JStr ''[1,2,3]'')],
                JObj [(''type'', JStr ''tool_use''),
                      (''input'', JObj [(''args'', JStr ''[1,2,3]''), (''cut'', JStr ''[1,2''),
                                        (''done'', JArr [JNum 1, JNum 2, JNum 3]),
                                        (''plain'', JStr ''abc''), (''n'', JNum 5)])]])])
     = JObj [(''content'',
          JArr [JObj [(''type'', JStr ''text''), (''text'', JStr ''[1,2,3]'')],
                JObj [(''type'', JStr ''tool_use''),
                      (''input'', JObj [(''args'', JArr [JNum 1, JNum 2, JNum 3]), (''cut'', JStr ''[1,2''),
                                        (''done'', JArr [JNum 1, JNum 2, JNum 3]),
                                        (''plain'', JStr ''abc''), (''n'', JNum 5)])]])]"
  using transformResponseBody_repairs
          [of "JObj [(''content'',
                 JArr [JObj [(''type'', JStr ''text''), (''text'', JStr ''[1,2,3]'')],
                       JObj [(''type'', JStr ''tool_use''),
                             (''input'', JObj [(''args'', JStr ''[1,2,3]''), (''cut'', JStr ''[1,2''),
                                               (''done'', JArr [JNum 1, JNum 2, JNum 3]),
                                               (''plain'', JStr ''abc''), (''n'', JNum 5)])]])]"
              "[JObj [(''type'', JStr ''text''), (''text'', JStr ''[1,2,3]'')],
                JObj [(''type'', JStr ''tool_use''),
                      (''input'', JObj [(''args'', JStr ''[1,2,3]''), (''cut'', JStr ''[1,2''),
                                        (''done'', JArr [JNum 1, JNum 2, JNum 3]),
                                        (''plain'', JStr ''abc''), (''n'', JNum 5)])]]"
              example_runtime]
  by (simp add: transformResponseBody_def repairBlock_def repairInput_def repairKey_def
      stringified_def nullish_def example_runtime_def TOOL_START_TEXT_def)

section \<open>Server-sent events: results\<close>

lemma mapName_truthy_not_nullish:
  "truthy name \<Longrightarrow> nullish_or (mapName rt name) name = mapName rt name"
proof (cases name)
  case (JStr s)
  then show ?thesis
    by (cases s) (auto simp: nullish_or_def NAME_MAP_at_def split: option.splits if_splits)
qed (simp_all add: nullish_or_def)

text \<open>
  C8. For every line and every runtime: a line that does not start with \<^verbatim>\<open>data:\<close> is
  returned as it is; so is a line whose trimmed payload is \<^verbatim>\<open>[DONE]\<close>, and a line
  whose payload \<^verbatim>\<open>JSON.parse\<close> rejects (nothing is raised: the function is total). When
  the payload parses, the line is rewritten exactly if the event's type is
  \<^verbatim>\<open>content_block_start\<close>, its \<^verbatim>\<open>content_block\<close> has type \<^verbatim>\<open>tool_use\<close> and a
  name that is present (truthy, as the source tests it): the result is \<^verbatim>\<open>data: \<close>
  followed by the serialization of the event with the name replaced by \<^verbatim>\<open>mapName\<close> of
  it. Every other parsed event gives back the original line.
\<close>

theorem transformSSELine_cases:
  "(\<not> prefix ''data:'' line \<longrightarrow> transformSSELine rt line = line)
   \<and> (trim (drop 5 line) = ''[DONE]'' \<longrightarrow> transformSSELine rt line = line)
   \<and> (JSON_parse rt (trim (drop 5 line)) = None \<longrightarrow> transformSSELine rt line = line)
   \<and> (\<forall>data. prefix ''data:'' line \<and> trim (drop 5 line) \<noteq> [] \<and> trim (drop 5 line) \<noteq> ''[DONE]''
         \<and> JSON_parse rt (trim (drop 5 line)) = Some data
         \<longrightarrow> (if get_prop data ''type'' = JStr ''content_block_start''
                 \<and> get_prop (get_prop data ''content_block'') ''type'' = JStr ''tool_use''
                 \<and> truthy (get_prop (get_prop data ''content_block'') ''name'')
              then transformSSELine rt line
                   = ''data: '' @ JSON_stringify rt
                       (set_prop data ''content_block''
                          (set_prop (get_prop data ''content_block'') ''name''
                             (mapName rt (get_prop (get_prop data ''content_block'') ''name''))))
              else transformSSELine rt line = line))"
proof (intro conjI allI impI)
  fix data
  assume a: "prefix ''data:'' line \<and> trim (drop 5 line) \<noteq> [] \<and> trim (drop 5 line) \<noteq> ''[DONE]''
         \<and> JSON_parse rt (trim (drop 5 line)) = Some data"
  have n1: "nullish data \<Longrightarrow> get_prop data ''type'' = JUndefined"
    by (auto simp: nullish_def)
  have n2: "nullish (get_prop data ''content_block'')
            \<Longrightarrow> get_prop (get_prop data ''content_block'') ''type'' = JUndefined"
    by (auto simp: nullish_def)
  show "if get_prop data ''type'' = JStr ''content_block_start''
                 \<and> get_prop (get_prop data ''content_block'') ''type'' = JStr ''tool_use''
                 \<and> truthy (get_prop (get_prop data ''content_block'') ''name'')
              then transformSSELine rt line
                   = ''data: '' @ JSON_stringify rt
                       (set_prop data ''content_block''
                          (set_prop (get_prop data ''content_block'') ''name''
                             (mapName rt (get_prop (get_prop data ''content_block'') ''name''))))
              else transformSSELine rt line = line"
    using a n1 n2
    by (auto simp: transformSSELine_def Let_def rename_def mapName_truthy_not_nullish)
qed (simp_all add: transformSSELine_def Let_def)

lemma tool_start_line:
  "prefix ''data:'' (''data: '' @ TOOL_START_TEXT ''todowrite'')"
  "trim (drop 5 (''data: '' @ TOOL_START_TEXT ''todowrite'')) = TOOL_START_TEXT ''todowrite''"
  "TOOL_START_TEXT ''todowrite'' \<noteq> []"
  "TOOL_START_TEXT ''todowrite'' \<noteq> ''[DONE]''"
  "TOOL_START_TEXT ''todowrite'' \<noteq> ''[1,2,3]''"
  by (simp_all add: trim_def leading_space_def WHITE_SPACE_def TOOL_START_TEXT_def)

lemma tool_start_renamed:
  "set_prop (TOOL_START ''todowrite'') ''content_block''
     (set_prop (get_prop (TOOL_START ''todowrite'') ''content_block'') ''name''
        (mapName rt (get_prop (get_prop (TOOL_START ''todowrite'') ''content_block'') ''name'')))
   = TOOL_START ''TodoWrite''"
  by (simp add: TOOL_START_def NAME_MAP_at_def NAME_MAP_def)

lemma done_line: "trim (drop 5 ''data: [DONE] '') = ''[DONE]''"
  by (simp add: trim_def leading_space_def WHITE_SPACE_def)

theorem transformSSELine_cases_witness:
  "prefix ''data:'' (''data: '' @ TOOL_START_TEXT ''todowrite'')
   \<and> JSON_parse example_runtime (trim (drop 5 (''data: '' @ TOOL_START_TEXT ''todowrite'')))
       = Some (TOOL_START ''todowrite'')
   \<and> transformSSELine example_runtime (''data: '' @ TOOL_START_TEXT ''todowrite'')
       = ''data: '' @ TOOL_START_TEXT ''TodoWrite''
   \<and> transformSSELine example_runtime ''data: [DONE] '' = ''data: [DONE] ''"
proof -
  let ?line = "''data: '' @ TOOL_START_TEXT ''todowrite''"
  have parsed: "JSON_parse example_runtime (trim (drop 5 ?line)) = Some (TOOL_START ''todowrite'')"
    unfolding tool_start_line(2) using tool_start_line(5) by (simp add: example_runtime_def)
  have start: "get_prop (TOOL_START ''todowrite'') ''type'' = JStr ''content_block_start''
      \<and> get_prop (get_prop (TOOL_START ''todowrite'') ''content_block'') ''type'' = JStr ''tool_use''
      \<and> truthy (get_prop (get_prop (TOOL_START ''todowrite'') ''content_block'') ''name'')"
    by (simp add: TOOL_START_def)
  have printed: "JSON_stringify example_runtime (TOOL_START ''TodoWrite'') = TOOL_START_TEXT ''TodoWrite''"
    by (simp add: example_runtime_def)
  have "transformSSELine example_runtime ?line
        = ''data: '' @ JSON_stringify example_runtime
            (set_prop (TOOL_START ''todowrite'') ''content_block''
               (set_prop (get_prop (TOOL_START ''todowrite'') ''content_block'') ''name''
                  (mapName example_runtime
                     (get_prop (get_prop (TOOL_START ''todowrite'') ''content_block'') ''name''))))"
  proof -
    note rewrite = transformSSELine_cases[of ?line example_runtime, THEN conjunct2,
        THEN conjunct2, THEN conjunct2, rule_format, of "TOOL_START ''todowrite''"]
    have ne: "trim (drop 5 ?line) \<noteq> []"
      unfolding tool_start_line(2) by (rule tool_start_line(3))
    have nd: "trim (drop 5 ?line) \<noteq> ''[DONE]''"
      unfolding tool_start_line(2) by (rule tool_start_line(4))
    have "prefix ''data:'' ?line \<and> trim (drop 5 ?line) \<noteq> []
          \<and> trim (drop 5 ?line) \<noteq> ''[DONE]''
          \<and> JSON_parse example_runtime (trim (drop 5 ?line)) = Some (TOOL_START ''todowrite'')"
      using parsed tool_start_line(1) ne nd by blast
    from rewrite[OF this] start show ?thesis
      by (simp only: if_True simp_thms)
  qed
  then have "transformSSELine example_runtime ?line = ''data: '' @ TOOL_START_TEXT ''TodoWrite''"
    unfolding tool_start_renamed printed .
  moreover have "transformSSELine example_runtime ''data: [DONE] '' = ''data: [DONE] ''"
    using transformSSELine_cases[of "''data: [DONE] ''" example_runtime] done_line by blast
  ultimately show ?thesis
    using parsed tool_start_line(1) by blast
qed

section \<open>The stream relay: results\<close>

lemma js_split_nonempty: "js_split sep s \<noteq> []"
  by (induction sep s rule: js_split.induct) (auto split: list.splits)

lemma js_join_Cons: "ps \<noteq> [] \<Longrightarrow> js_join sep ((c # p) # ps) = c # js_join sep (p # ps)"
  by (cases ps) auto

lemma js_join_Cons1: "js_join sep ((c # p) # ps) = c # js_join sep (p # ps)"
  by (cases ps) auto

lemma js_join_Nil_Cons: "ps \<noteq> [] \<Longrightarrow> js_join sep ([] # ps) = sep @ js_join sep ps"
  by (cases ps) auto

lemma js_join_split: "js_join sep (js_split sep s) = s"
proof (induction sep s rule: js_split.induct)
  case (1 sep)
  then show ?case by simp
next
  case (2 sep c cs)
  show ?case
  proof (cases "sep \<noteq> [] \<and> prefix sep (c # cs)")
    case True
    then have "sep @ drop (length sep) (c # cs) = c # cs"
      by (metis append_eq_conv_conj prefixE)
    then show ?thesis
      using True 2(1) js_split_nonempty[of sep "drop (length sep) (c # cs)"]
      by (simp add: js_join_Nil_Cons)
  next
    case False
    obtain p ps where p: "js_split sep cs = p # ps"
      using js_split_nonempty[of sep cs] by (cases "js_split sep cs") auto
    then show ?thesis
      using False 2(2) by (auto simp: js_join_Cons1)
  qed
qed

lemma js_split_single: "js_split sep s = [q] \<Longrightarrow> q = s"
  using js_join_split[of sep s] by simp

lemma js_split_short: "length s < length sep \<Longrightarrow> js_split sep s = [s]"
proof (induction s)
  case Nil
  then show ?case by simp
next
  case (Cons c cs)
  have "\<not> prefix sep (c # cs)"
    using Cons.prems by (auto dest: prefix_length_le)
  then show ?case
    using Cons by simp
qed

lemma js_split_append:
  "js_split sep (P @ C)
   = butlast (js_split sep P) @ js_split sep (last (js_split sep P) @ C)"
proof (induction sep P rule: js_split.induct)
  case (1 sep)
  then show ?case by simp
next
  case (2 sep c cs)
  show ?case
  proof (cases "sep \<noteq> [] \<and> prefix sep (c # cs)")
    case True
    then have pre: "prefix sep ((c # cs) @ C)"
      by (meson prefix_order.trans prefixI)
    obtain rest where rest: "c # cs = sep @ rest"
      using True by (auto elim: prefixE)
    have d1: "drop (length sep) (c # cs) = rest"
      unfolding rest by simp
    have d2: "drop (length sep) (c # cs @ C) = rest @ C"
      using rest by (metis append_Cons append_assoc append_eq_conv_conj)
    have "js_split sep ((c # cs) @ C) = [] # js_split sep (drop (length sep) (c # cs) @ C)"
      using True pre d1 d2 by simp
    then show ?thesis
      using True 2(1) js_split_nonempty[of sep "drop (length sep) (c # cs)"]
      by simp
  next
    case False
    obtain q qs where q: "js_split sep cs = q # qs"
      using js_split_nonempty[of sep cs] by (cases "js_split sep cs") auto
    have whole: "js_split sep (c # cs) = (c # q) # qs"
      using False q by auto
    show ?thesis
    proof (cases "sep \<noteq> [] \<and> prefix sep ((c # cs) @ C)")
      case True
      then have "length (c # cs) < length sep"
        using False by (metis linorder_not_less prefix_length_prefix prefixI append.assoc)
      then have "js_split sep (c # cs) = [c # cs]"
        by (rule js_split_short)
      then show ?thesis by simp
    next
      case nopre: False
      have lhs: "js_split sep ((c # cs) @ C)
                 = (case js_split sep (cs @ C) of p # ps \<Rightarrow> (c # p) # ps | [] \<Rightarrow> [[c]])"
        using nopre by auto
      have ih: "js_split sep (cs @ C) = butlast (q # qs) @ js_split sep (last (q # qs) @ C)"
        using 2(2) False q by simp
      show ?thesis
      proof (cases qs)
        case Nil
        then have "q = cs"
          using q js_split_single by blast
        then show ?thesis
          using whole Nil by simp
      next
        case (Cons r rs)
        then show ?thesis
          using lhs ih whole by simp
      qed
    qed
  qed
qed


lemma relay_states:
  "fold (\<lambda>chunk st. onData rt st chunk) chunks \<lparr> buffer = [], written = [] \<rparr>
   = \<lparr> buffer = last (js_split (nl @ nl) (concat (map toString_utf8 chunks))),
       written = map (\<lambda>part. transformEvent rt part @ nl @ nl)
                   (butlast (js_split (nl @ nl) (concat (map toString_utf8 chunks)))) \<rparr>"
proof (induction chunks rule: rev_induct)
  case Nil
  then show ?case by simp
next
  case (snoc chunk chunks)
  let ?D = "concat (map toString_utf8 chunks)"
  have split: "js_split (nl @ nl) (?D @ toString_utf8 chunk)
        = butlast (js_split (nl @ nl) ?D)
          @ js_split (nl @ nl) (last (js_split (nl @ nl) ?D) @ toString_utf8 chunk)"
    by (rule js_split_append)
  have ne: "js_split (nl @ nl) (last (js_split (nl @ nl) ?D) @ toString_utf8 chunk) \<noteq> []"
    by (rule js_split_nonempty)
  show ?case
    using snoc split ne by (simp add: onData_def Let_def butlast_append)
qed

lemma relay_decoded:
  "relay rt chunks
   = onEnd rt \<lparr> buffer = last (js_split (nl @ nl) (concat (map toString_utf8 chunks))),
                  written = map (\<lambda>part. transformEvent rt part @ nl @ nl)
                              (butlast (js_split (nl @ nl) (concat (map toString_utf8 chunks)))) \<rparr>"
  by (simp add: relay_def relay_states)

text \<open>The buffering itself does not depend on where the chunks are cut.\<close>

lemma relay_chunking:
  assumes "toString_utf8 (concat chunks) = concat (map toString_utf8 chunks)"
  shows "relay rt chunks = relay rt [concat chunks]"
  using assms by (simp add: relay_decoded)

lemma utf8_decode_ascii:
  "\<forall>b\<in>set bs. (of_char b :: nat) \<le> 0x7F \<Longrightarrow> utf8_decode utf8_idle bs = bs"
  by (induction bs) (auto simp: utf8_idle_def utf8_step_def utf8_lead_def)

lemma relay_ascii:
  assumes "\<forall>chunk\<in>set chunks. \<forall>b\<in>set chunk. (of_char b :: nat) \<le> 0x7F"
  shows "relay rt chunks = relay rt [concat chunks]"
proof -
  have "map toString_utf8 chunks = chunks"
    using assms by (intro map_idI) (simp add: toString_utf8_def utf8_decode_ascii)
  moreover have "toString_utf8 (concat chunks) = concat chunks"
    using assms by (simp add: toString_utf8_def utf8_decode_ascii)
  ultimately show ?thesis
    by (intro relay_chunking) simp
qed

text \<open>
  C3. The claim: however the bytes of the upstream response are cut into chunks, the relay
  writes the same events as for one chunk. The handler decodes every chunk on its own, so
  a chunk boundary inside a multi-byte character yields two replacement characters where
  the whole stream has the character. Here the line \<^verbatim>\<open>event: \<close> followed by the two
  bytes C3 A9 (the letter e with acute accent) and a blank line arrives once whole and once
  cut between the two bytes; the runtime is arbitrary.
\<close>

theorem relay_splits_character:
  "relay rt [''event: '' @ [CHR 0xC3, CHR 0xA9] @ nl @ nl]
     = [''event: '' @ [CHR 0xC3, CHR 0xA9] @ nl @ nl]
   \<and> relay rt [''event: '' @ [CHR 0xC3], [CHR 0xA9] @ nl @ nl]
     = [''event: '' @ REPLACEMENT @ REPLACEMENT @ nl @ nl]
   \<and> relay rt [''event: '' @ [CHR 0xC3], [CHR 0xA9] @ nl @ nl]
     \<noteq> relay rt [''event: '' @ [CHR 0xC3, CHR 0xA9] @ nl @ nl]"
  by (simp add: relay_def onData_def onEnd_def toString_utf8_def utf8_idle_def utf8_step_def
      utf8_lead_def REPLACEMENT_def transformEvent_def transformSSELine_def
      trim_def leading_space_def WHITE_SPACE_def Let_def)

end
